theory Spec2Isabelle
  imports Main "HOL-Library.Word" "HOL-Library.AList"
begin

unbundle bit_operations_syntax

section \<open>Signal relay: the frame reader (pkg/routing/signal.go)\<close>

text \<open>
  A relay frame carries a sequence number, a close flag and a batch of messages
  (\<open>RelaySignalMessage\<close>: \<open>GetSeq\<close>, \<open>GetClose\<close>, and the repeated requests or
  responses).  The errors are the two package-level error values, the error of the
  inner reader, and the run-time panic of a slice expression with a negative bound.
\<close>

datatype signal_error = ErrSignalWriteFailed | ErrSignalMessageDropped | ErrReader | PanicSliceBounds

record 'm RelaySignalMessage =
  GetSeq :: "64 word"
  GetClose :: bool
  GetMessages :: "'m list"

record signalMessageReader =
  r_seq :: "64 word"

text \<open>\<open>signalResponseMessageReader.Read\<close>: copies the responses, never fails.\<close>

definition signalResponseMessageReader_Read :: "'m RelaySignalMessage \<Rightarrow> signal_error + 'm list" where
  "signalResponseMessageReader_Read rm = Inr (GetMessages rm)"

text \<open>
  The trimming block of \<open>signalMessageReader.Read\<close>:
  \<^verbatim>\<open>if r.seq > msg.GetSeq() { n := int(r.seq - msg.GetSeq()); if n > len(res) { n = len(res) }; res = res[n:] }\<close>
  The conversion \<open>int(...)\<close> of a \<open>uint64\<close> reads the difference as a signed 64-bit
  value; a negative \<open>n\<close> makes \<open>res[n:]\<close> panic.
\<close>

definition trim_overlap :: "64 word \<Rightarrow> 64 word \<Rightarrow> 'm list \<Rightarrow> signal_error + 'm list" where
  "trim_overlap rseq mseq res =
     (if rseq > mseq then
        (let n = sint (rseq - mseq);
             n' = (if n > int (length res) then int (length res) else n)
         in if n' < 0 then Inl PanicSliceBounds else Inr (drop (nat n') res))
      else Inr res)"

text \<open>\<open>signalMessageReader.Read\<close>, returning the result and the updated reader.\<close>

definition signalMessageReader_Read ::
  "('m RelaySignalMessage \<Rightarrow> signal_error + 'm list) \<Rightarrow> signalMessageReader \<Rightarrow> 'm RelaySignalMessage
     \<Rightarrow> (signal_error + 'm list) \<times> signalMessageReader" where
  "signalMessageReader_Read reader r msg =
     (case reader msg of
        Inl err \<Rightarrow> (Inl err, r)
      | Inr res \<Rightarrow>
          if r_seq r < GetSeq msg then (Inl ErrSignalMessageDropped, r)
          else (case trim_overlap (r_seq r) (GetSeq msg) res of
                  Inl err \<Rightarrow> (Inl err, r)
                | Inr res' \<Rightarrow> (Inr res', r\<lparr>r_seq := r_seq r + of_nat (length res')\<rparr>)))"

section \<open>Stream tracker manager (type StreamTrackerManager)\<close>

text \<open>
  Modelled from the spec: \<open>buffer.RTCPSenderReportData\<close> is declared in the buffer
  package.  Of its fields, the two that align timestamps across layers: the NTP
  timestamp (a 64-bit \<open>NtpTime\<close>) and the RTP timestamp of the most recent sender
  report of a layer.
\<close>

record RTCPSenderReportData =
  NTPTimestamp :: "64 word"
  RTPTimestamp :: "32 word"

text \<open>
  Modelled from the spec: the stream tracker is declared in the streamtracker package.
  The manager reads from it the cumulative byte count per temporal layer since the last
  tick, the slice returned by \<open>BitrateTemporalCumulative()\<close>.
\<close>

record StreamTracker =
  BitrateTemporalCumulative :: "int list"

text \<open>
  The fields of \<open>StreamTrackerManager\<close> that the modelled operations read.  The arrays
  \<open>trackers\<close> and \<open>senderReports\<close> hold nil-able pointers, hence options.
\<close>

record StreamTrackerManager =
  isSVC :: bool
  clockRate :: "32 word"
  maxPublishedLayer :: int
  maxTemporalLayerSeen :: int
  trackers :: "StreamTracker option list"
  availableLayers :: "int list"
  senderReports :: "RTCPSenderReportData option list"

text \<open>The three \<open>fmt.Errorf\<close> results of \<open>GetReferenceLayerRTPTimestamp\<close>, with their arguments.\<close>

datatype sr_error = InvalidLayer int int | LayerSRNotAvailable int | RefLayerSRNotAvailable int

text \<open>
  Go's \<open>time.Time.Sub\<close> on instants given in nanoseconds: the difference as a
  \<open>Duration\<close> (an \<open>int64\<close>), saturating at the minimum and maximum duration.
\<close>

definition time_Sub :: "int \<Rightarrow> int \<Rightarrow> int" where
  "time_Sub t u =
     (let d = t - u
      in if d < - (2 ^ 63) then - (2 ^ 63) else if 2 ^ 63 - 1 < d then 2 ^ 63 - 1 else d)"

text \<open>The value an \<open>int64\<close> holds after an operation whose exact result is \<open>x\<close>.\<close>

definition int64_wrap :: "int \<Rightarrow> int" where
  "int64_wrap x = (x + 2 ^ 63) mod 2 ^ 64 - 2 ^ 63"

text \<open>Go's integer division, which truncates towards zero.\<close>

definition go_quo :: "int \<Rightarrow> int \<Rightarrow> int" where
  "go_quo a b = (if (a < 0) = (b < 0) then \<bar>a\<bar> div \<bar>b\<bar> else - (\<bar>a\<bar> div \<bar>b\<bar>))"

text \<open>
  \<^verbatim>\<open>var sr *RTCPSenderReportData; if int(layer) < len(s.senderReports) { sr = s.senderReports[layer] }\<close>
  for a layer already known to be non-negative.
\<close>

definition senderReportAt :: "StreamTrackerManager \<Rightarrow> int \<Rightarrow> RTCPSenderReportData option" where
  "senderReportAt s layer =
     (if layer < int (length (senderReports s)) then senderReports s ! nat layer else None)"

text \<open>
  \<open>StreamTrackerManager.GetReferenceLayerRTPTimestamp\<close>.  The conversion
  \<open>NtpTime.Time()\<close> belongs to an imported package; it is the parameter \<open>ntpTime\<close>,
  giving the instant in nanoseconds.  \<open>ntpDiff.Nanoseconds() * int64(s.clockRate) / 1e9\<close>
  is a wrapping \<open>int64\<close> product followed by a truncating division, and
  \<open>uint32(rtpDiff)\<close> keeps the low 32 bits.
\<close>

definition GetReferenceLayerRTPTimestamp ::
  "(64 word \<Rightarrow> int) \<Rightarrow> StreamTrackerManager \<Rightarrow> 32 word \<Rightarrow> int \<Rightarrow> int \<Rightarrow> sr_error + 32 word" where
  "GetReferenceLayerRTPTimestamp ntpTime s ts layer referenceLayer =
     (if layer < 0 \<or> referenceLayer < 0 then Inl (InvalidLayer layer referenceLayer)
      else (case senderReportAt s layer of
        None \<Rightarrow> Inl (LayerSRNotAvailable layer)
      | Some srLayer \<Rightarrow>
          (if NTPTimestamp srLayer = 0 then Inl (LayerSRNotAvailable layer)
           else (case senderReportAt s referenceLayer of
             None \<Rightarrow> Inl (RefLayerSRNotAvailable referenceLayer)
           | Some srRef \<Rightarrow>
               (if NTPTimestamp srRef = 0 then Inl (RefLayerSRNotAvailable referenceLayer)
                else
                  (let ntpDiff = time_Sub (ntpTime (NTPTimestamp srRef)) (ntpTime (NTPTimestamp srLayer));
                       rtpDiff = go_quo (int64_wrap (ntpDiff * uint (clockRate s))) 1000000000;
                       normalizedTS = RTPTimestamp srLayer + word_of_int rtpDiff
                   in Inr (ts + (RTPTimestamp srRef - normalizedTS))))))))"

text \<open>
  The mapping as the specification writes it, in exact integer arithmetic:
  \<open>ts + (RTP_ref - (RTP_layer + (NTP_ref - NTP_layer) * clockRate))\<close> modulo \<open>2^32\<close>,
  the NTP difference being taken in nanoseconds and the product divided by \<open>10^9\<close>.
\<close>

definition spec_mapped_ts ::
  "(64 word \<Rightarrow> int) \<Rightarrow> 32 word \<Rightarrow> 32 word \<Rightarrow> RTCPSenderReportData \<Rightarrow> RTCPSenderReportData \<Rightarrow> 32 word" where
  "spec_mapped_ts ntpTime rate ts srLayer srRef =
     ts + (RTPTimestamp srRef -
           (RTPTimestamp srLayer +
            word_of_int (go_quo ((ntpTime (NTPTimestamp srRef) - ntpTime (NTPTimestamp srLayer)) * uint rate) 1000000000)))"

text \<open>
  One instance of the conversion, used for the concrete examples: an NTP timestamp read as
  32.32 fixed-point seconds and rounded to the nearest nanosecond (the fraction times
  \<open>10^9\<close>, shifted right by 32 bits, plus one when the bits shifted out are \<open>2^31\<close> or
  more).
\<close>

definition ntp_fixed_point_ns :: "64 word \<Rightarrow> int" where
  "ntp_fixed_point_ns t =
     (let sec = uint (drop_bit 32 t) * 1000000000;
          frac = uint (take_bit 32 t) * 1000000000;
          nsec = frac div 2 ^ 32 + (if 2 ^ 31 \<le> frac mod 2 ^ 32 then 1 else 0)
      in sec + nsec)"

text \<open>
  The specification's scenario: layer 0 reports NTP 1000 s, RTP 100000; layer 1 reports
  NTP 1000.1 s, RTP 110000; the clock rate is 90000.
\<close>

definition sr_example :: StreamTrackerManager where
  "sr_example = \<lparr>isSVC = False, clockRate = 90000, maxPublishedLayer = 1, maxTemporalLayerSeen = 0,
     trackers = [None, None, None], availableLayers = [],
     senderReports = [Some \<lparr>NTPTimestamp = 4294967296000, RTPTimestamp = 100000\<rparr>,
                      Some \<lparr>NTPTimestamp = 4294967296000 + 429496730, RTPTimestamp = 110000\<rparr>,
                      None]\<rparr>"

text \<open>The same track when the report of layer 1 is two days (172800 s) younger than that of layer 0.\<close>

definition sr_overflow :: StreamTrackerManager where
  "sr_overflow = \<lparr>isSVC = False, clockRate = 90000, maxPublishedLayer = 1, maxTemporalLayerSeen = 0,
     trackers = [None, None, None], availableLayers = [],
     senderReports = [Some \<lparr>NTPTimestamp = 4294967296000, RTPTimestamp = 100000\<rparr>,
                      Some \<lparr>NTPTimestamp = 746465316044800, RTPTimestamp = 110000\<rparr>,
                      None]\<rparr>"

section \<open>VP9 layer selector (pkg/sfu/videolayerselector/vp9.go)\<close>

text \<open>
  Modelled from the spec: \<open>buffer.VideoLayer\<close> and its methods are declared in the buffer
  package.  A layer is a pair of a spatial and a temporal index, the sentinel
  \<open>InvalidLayer\<close> is \<open>{-1, -1}\<close>, and comparison is lexicographic on
  \<open>(spatial, temporal)\<close>.
\<close>

record VideoLayer =
  Spatial :: int
  Temporal :: int

definition InvalidLayerSpatial :: int where "InvalidLayerSpatial = - 1"
definition InvalidLayerTemporal :: int where "InvalidLayerTemporal = - 1"

text \<open>Modelled from the spec: a layer is valid when neither index is the sentinel.\<close>

definition IsValid :: "VideoLayer \<Rightarrow> bool" where
  "IsValid v = (Spatial v \<noteq> InvalidLayerSpatial \<and> Temporal v \<noteq> InvalidLayerTemporal)"

text \<open>Modelled from the spec: the lexicographic order on \<open>(spatial, temporal)\<close>.\<close>

definition GreaterThan :: "VideoLayer \<Rightarrow> VideoLayer \<Rightarrow> bool" where
  "GreaterThan v v2 = (Spatial v > Spatial v2 \<or> (Spatial v = Spatial v2 \<and> Temporal v > Temporal v2))"

text \<open>
  The flags of the VP9 payload descriptor (\<open>codecs.VP9Packet\<close>) that \<open>Select\<close> reads:
  inter-picture predicted (\<open>P\<close>), end of frame (\<open>E\<close>), begin of frame (\<open>B\<close>),
  switching up point (\<open>U\<close>).
\<close>

record VP9Packet =
  P :: bool
  E :: bool
  B :: bool
  U :: bool

text \<open>
  \<open>extPkt.Payload\<close> is an \<open>interface{}\<close>; the type assertion to \<open>codecs.VP9Packet\<close>
  succeeds on the first constructor only.
\<close>

datatype packet_payload = VP9Payload VP9Packet | OtherPayload

text \<open>
  The fields of \<open>buffer.ExtPacket\<close> that \<open>Select\<close> reads: \<open>VideoLayer\<close>,
  \<open>KeyFrame\<close>, \<open>Packet.Marker\<close> and \<open>Payload\<close>.
\<close>

record ExtPacket =
  pktVideoLayer :: VideoLayer
  KeyFrame :: bool
  pktMarker :: bool
  pktPayload :: packet_payload

text \<open>
  Modelled from the spec: the selector state \<open>Base\<close> shared by all codec variants, with
  the fields \<open>currentLayer\<close>, \<open>targetLayer\<close>, \<open>requestSpatial\<close>, \<open>maxLayer\<close>,
  \<open>maxSeenLayer\<close>, \<open>parkedLayer\<close>.
\<close>

record Base =
  currentLayer :: VideoLayer
  targetLayer :: VideoLayer
  requestSpatial :: int
  maxLayer :: VideoLayer
  maxSeenLayer :: VideoLayer
  parkedLayer :: VideoLayer

text \<open>The fields of \<open>VideoLayerSelectorResult\<close> that \<open>VP9.Select\<close> assigns.\<close>

record VideoLayerSelectorResult =
  IsSelected :: bool
  IsRelevant :: bool
  IsSwitchingToMaxSpatial :: bool
  IsSwitchingToRequestSpatial :: bool
  IsResuming :: bool
  RTPMarker :: bool

text \<open>The zero value of the named result, returned by the bare \<open>return\<close> statements.\<close>

definition zero_result :: VideoLayerSelectorResult where
  "zero_result = \<lparr>IsSelected = False, IsRelevant = False, IsSwitchingToMaxSpatial = False,
     IsSwitchingToRequestSpatial = False, IsResuming = False, RTPMarker = False\<rparr>"

text \<open>
  The block \<open>if v.currentLayer.Temporal != v.targetLayer.Temporal { ... }\<close>, acting on the
  local copies \<open>currentLayer\<close> and \<open>updatedLayer\<close>.
\<close>

definition vp9_temporal :: "Base \<Rightarrow> ExtPacket \<Rightarrow> VP9Packet \<Rightarrow> VideoLayer \<times> VideoLayer \<Rightarrow> VideoLayer \<times> VideoLayer" where
  "vp9_temporal v extPkt vp9 cu =
     (case cu of (cur, upd) \<Rightarrow>
        if Temporal (currentLayer v) \<noteq> Temporal (targetLayer v) then
          (if Temporal (currentLayer v) < Temporal (targetLayer v) then
             (if Temporal (pktVideoLayer extPkt) > Temporal (currentLayer v)
                 \<and> Temporal (pktVideoLayer extPkt) \<le> Temporal (targetLayer v) \<and> U vp9 \<and> B vp9
              then (cur\<lparr>Temporal := Temporal (pktVideoLayer extPkt)\<rparr>,
                    upd\<lparr>Temporal := Temporal (pktVideoLayer extPkt)\<rparr>)
              else (cur, upd))
           else
             (if E vp9 then (cur, upd\<lparr>Temporal := Temporal (targetLayer v)\<rparr>) else (cur, upd)))
        else (cur, upd))"

text \<open>The block \<open>if v.currentLayer.Spatial != v.targetLayer.Spatial { ... }\<close>.\<close>

definition vp9_spatial :: "Base \<Rightarrow> ExtPacket \<Rightarrow> VP9Packet \<Rightarrow> VideoLayer \<times> VideoLayer \<Rightarrow> VideoLayer \<times> VideoLayer" where
  "vp9_spatial v extPkt vp9 cu =
     (case cu of (cur, upd) \<Rightarrow>
        if Spatial (currentLayer v) \<noteq> Spatial (targetLayer v) then
          (if Spatial (currentLayer v) < Spatial (targetLayer v) then
             (if Spatial (pktVideoLayer extPkt) > Spatial (currentLayer v)
                 \<and> Spatial (pktVideoLayer extPkt) \<le> Spatial (targetLayer v) \<and> \<not> P vp9 \<and> B vp9
              then (cur\<lparr>Spatial := Spatial (pktVideoLayer extPkt)\<rparr>,
                    upd\<lparr>Spatial := Spatial (pktVideoLayer extPkt)\<rparr>)
              else (cur, upd))
           else
             (if E vp9 then (cur, upd\<lparr>Spatial := Spatial (targetLayer v)\<rparr>) else (cur, upd)))
        else (cur, upd))"

text \<open>
  The block \<open>if updatedLayer != v.currentLayer { ... }\<close>: it sets the transition flags of the
  result and stores the updated layer.
\<close>

definition vp9_commit :: "Base \<Rightarrow> VideoLayer \<Rightarrow> VideoLayerSelectorResult \<times> Base" where
  "vp9_commit v updatedLayer =
     (if updatedLayer \<noteq> currentLayer v then
        (zero_result\<lparr>
           IsResuming := (\<not> IsValid (currentLayer v) \<and> IsValid updatedLayer),
           IsSwitchingToRequestSpatial :=
             (Spatial (currentLayer v) \<noteq> requestSpatial v \<and> Spatial updatedLayer = requestSpatial v),
           IsSwitchingToMaxSpatial :=
             (Spatial (currentLayer v) \<noteq> Spatial (maxLayer v) \<and> Spatial updatedLayer = Spatial (maxLayer v))\<rparr>,
         v\<lparr>currentLayer := updatedLayer\<rparr>)
      else (zero_result, v))"

text \<open>
  The tail of \<open>Select\<close>: marker, selection and relevance.  The marker test reads the local
  \<open>currentLayer\<close> for the packet's spatial layer and the stored one for the target test.
\<close>

definition vp9_finish :: "ExtPacket \<Rightarrow> VP9Packet \<Rightarrow> VideoLayer \<Rightarrow> VideoLayerSelectorResult \<times> Base
    \<Rightarrow> VideoLayerSelectorResult \<times> Base" where
  "vp9_finish extPkt vp9 cur rv =
     (case rv of (result, v) \<Rightarrow>
        (result\<lparr>
           RTPMarker := (if E vp9 \<and> Spatial (pktVideoLayer extPkt) = Spatial cur
                            \<and> (P vp9 \<or> Spatial (targetLayer v) \<le> Spatial (currentLayer v))
                         then True else pktMarker extPkt),
           IsSelected := (\<not> GreaterThan (pktVideoLayer extPkt) cur),
           IsRelevant := True\<rparr>, v))"

text \<open>\<open>VP9.Select\<close>, returning the result and the updated selector.\<close>

definition VP9_Select :: "Base \<Rightarrow> ExtPacket \<Rightarrow> VideoLayerSelectorResult \<times> Base" where
  "VP9_Select v extPkt =
     (case pktPayload extPkt of
        OtherPayload \<Rightarrow> (zero_result, v)
      | VP9Payload vp9 \<Rightarrow>
          if currentLayer v \<noteq> targetLayer v then
            (if \<not> IsValid (currentLayer v) then
               (if \<not> KeyFrame extPkt then (zero_result, v)
                else vp9_finish extPkt vp9 (currentLayer v) (vp9_commit v (pktVideoLayer extPkt)))
             else
               (case vp9_spatial v extPkt vp9 (vp9_temporal v extPkt vp9 (currentLayer v, currentLayer v)) of
                  (cur, upd) \<Rightarrow> vp9_finish extPkt vp9 cur (vp9_commit v upd)))
          else vp9_finish extPkt vp9 (currentLayer v) (zero_result, v))"

text \<open>
  The specification's scenario: current layer \<open>{0,0}\<close>, target \<open>{1,2}\<close>, a packet of layer
  \<open>{0,1}\<close> with \<open>U\<close> and \<open>B\<close>, then a packet of layer \<open>{1,0}\<close> with \<open>B\<close> and without
  \<open>P\<close>.
\<close>

definition vp9_example :: Base where
  "vp9_example = \<lparr>currentLayer = \<lparr>Spatial = 0, Temporal = 0\<rparr>, targetLayer = \<lparr>Spatial = 1, Temporal = 2\<rparr>,
     requestSpatial = 1, maxLayer = \<lparr>Spatial = 2, Temporal = 3\<rparr>,
     maxSeenLayer = \<lparr>Spatial = 1, Temporal = 2\<rparr>, parkedLayer = \<lparr>Spatial = - 1, Temporal = - 1\<rparr>\<rparr>"

definition vp9_pkt1 :: ExtPacket where
  "vp9_pkt1 = \<lparr>pktVideoLayer = \<lparr>Spatial = 0, Temporal = 1\<rparr>, KeyFrame = False, pktMarker = False,
     pktPayload = VP9Payload \<lparr>P = True, E = False, B = True, U = True\<rparr>\<rparr>"

definition vp9_pkt2 :: ExtPacket where
  "vp9_pkt2 = \<lparr>pktVideoLayer = \<lparr>Spatial = 1, Temporal = 0\<rparr>, KeyFrame = False, pktMarker = False,
     pktPayload = VP9Payload \<lparr>P = False, E = False, B = True, U = False\<rparr>\<rparr>"

section \<open>Receiver and down-track spreader (types WebRTCReceiver, DownTrackSpreader)\<close>

text \<open>
  A \<open>TrackSender\<close> is an interface value: what the receiver needs of it is the subscriber
  it belongs to; \<open>senderRef\<close> tells two sender objects of one subscriber apart.
\<close>

type_synonym ParticipantID = string

record TrackSender =
  SubscriberID :: ParticipantID
  senderRef :: nat

text \<open>
  The calls \<open>AddDownTrack\<close> makes on the sender, and the receiver's trace of them together
  with its calls on the spreader, in the order made.
\<close>

datatype sender_call =
  TrackInfoAvailable
  | UpTrackMaxPublishedLayerChange int
  | UpTrackMaxTemporalLayerSeenChange int

datatype receiver_event = SenderCall TrackSender sender_call | SpreaderStore TrackSender | SpreaderFree ParticipantID

text \<open>The package-level error values of the receiver.\<close>

datatype receiver_error = ErrReceiverClosed | ErrDownTrackAlreadyExist | ErrBufferNotFound

text \<open>
  \<open>DownTrackSpreader\<close>: the Go map from subscriber to sender is an association list with
  one entry per key, and the shadow slice is rebuilt from it after every change (the order
  in which Go ranges over the map is not fixed; the model takes the list's order).
\<close>

record DownTrackSpreader =
  downTracks :: "(ParticipantID \<times> TrackSender) list"
  downTracksShadow :: "TrackSender list"

definition NewDownTrackSpreader :: DownTrackSpreader where
  "NewDownTrackSpreader = \<lparr>downTracks = [], downTracksShadow = []\<rparr>"

definition shadowDownTracks :: "DownTrackSpreader \<Rightarrow> DownTrackSpreader" where
  "shadowDownTracks d = d\<lparr>downTracksShadow := map snd (downTracks d)\<rparr>"

definition Store :: "DownTrackSpreader \<Rightarrow> TrackSender \<Rightarrow> DownTrackSpreader" where
  "Store d ts = shadowDownTracks (d\<lparr>downTracks := AList.update (SubscriberID ts) ts (downTracks d)\<rparr>)"

definition Free :: "DownTrackSpreader \<Rightarrow> ParticipantID \<Rightarrow> DownTrackSpreader" where
  "Free d subscriberID = shadowDownTracks (d\<lparr>downTracks := AList.delete subscriberID (downTracks d)\<rparr>)"

definition HasDownTrack :: "DownTrackSpreader \<Rightarrow> ParticipantID \<Rightarrow> bool" where
  "HasDownTrack d subscriberID = (map_of (downTracks d) subscriberID \<noteq> None)"

text \<open>The fields of \<open>WebRTCReceiver\<close> that adding and deleting a down track touch.\<close>

record WebRTCReceiver =
  closed :: bool
  streamTrackerManager :: StreamTrackerManager
  downTrackSpreader :: DownTrackSpreader
  events :: "receiver_event list"

text \<open>
  \<open>WebRTCReceiver.AddDownTrack\<close>; the result is the returned error (\<open>None\<close> for
  \<open>nil\<close>) and the updated receiver.
\<close>

definition AddDownTrack :: "WebRTCReceiver \<Rightarrow> TrackSender \<Rightarrow> receiver_error option \<times> WebRTCReceiver" where
  "AddDownTrack w track =
     (if closed w then (Some ErrReceiverClosed, w)
      else
        (let w1 = w\<lparr>events := events w @ [SenderCall track TrackInfoAvailable]\<rparr>;
             w2 = w1\<lparr>events := events w1 @
                    [SenderCall track (UpTrackMaxPublishedLayerChange (maxPublishedLayer (streamTrackerManager w1)))]\<rparr>;
             w3 = w2\<lparr>events := events w2 @
                    [SenderCall track (UpTrackMaxTemporalLayerSeenChange (maxTemporalLayerSeen (streamTrackerManager w2)))]\<rparr>;
             w4 = w3\<lparr>downTrackSpreader := Store (downTrackSpreader w3) track,
                      events := events w3 @ [SpreaderStore track]\<rparr>
         in (None, w4)))"

text \<open>\<open>WebRTCReceiver.DeleteDownTrack\<close>, which has no result value.\<close>

definition DeleteDownTrack :: "WebRTCReceiver \<Rightarrow> ParticipantID \<Rightarrow> WebRTCReceiver" where
  "DeleteDownTrack w subscriberID =
     (if closed w then w
      else w\<lparr>downTrackSpreader := Free (downTrackSpreader w) subscriberID,
             events := events w @ [SpreaderFree subscriberID]\<rparr>)"

text \<open>
  The spreader's representation invariant: one entry per subscriber, every sender filed
  under its own subscriber, and the shadow in step with the map.
\<close>

definition spreader_inv :: "DownTrackSpreader \<Rightarrow> bool" where
  "spreader_inv d =
     (distinct (map fst (downTracks d))
      \<and> list_all (\<lambda>kv. SubscriberID (snd kv) = fst kv) (downTracks d)
      \<and> downTracksShadow d = map snd (downTracks d))"


text \<open>A receiver that already serves subscriber \<open>alice\<close>, and a second sender for her.\<close>

definition receiver_example :: WebRTCReceiver where
  "receiver_example = \<lparr>closed = False, streamTrackerManager = sr_example,
     downTrackSpreader = \<lparr>downTracks = [(''alice'', \<lparr>SubscriberID = ''alice'', senderRef = 1\<rparr>)],
                           downTracksShadow = [\<lparr>SubscriberID = ''alice'', senderRef = 1\<rparr>]\<rparr>,
     events = []\<rparr>"

definition sender_example :: TrackSender where
  "sender_example = \<lparr>SubscriberID = ''alice'', senderRef = 2\<rparr>"

section \<open>RED encoder (pkg/sfu/redreceiver.go)\<close>

text \<open>
  An RTP packet, as far as the encoder reads it: the 16-bit sequence number, the 32-bit
  timestamp and the payload bytes.
\<close>

type_synonym byte = "8 word"

record rtp_Packet =
  SequenceNumber :: "16 word"
  Timestamp :: "32 word"
  Payload :: "byte list"

text \<open>The constants of the file.\<close>

definition maxRedCount :: nat where "maxRedCount = 2"

definition mtuSize :: nat where "mtuSize = 1500"

definition opusPT :: byte where "opusPT = 111"

text \<open>
  What can go wrong: the error value returned when \<open>copy\<close> stores fewer bytes than the
  payload has, and the run-time panics of an index or slice out of range and of a nil
  packet pointer.
\<close>

datatype red_error = ErrNotEnoughSpace nat | PanicIndexOutOfRange | PanicNilDereference

text \<open>
  The history \<open>pktBuff\<close> of the receiver, an array of nil-able packet pointers of length
  \<open>maxRedCount\<close>.
\<close>

record RedReceiver =
  pktBuff :: "rtp_Packet option list"

text \<open>
  \<^verbatim>\<open>lastNilPkt := -1; for i := redLength - 1; i >= 0; i-- { if r.pktBuff[i] == nil { lastNilPkt = i; break } }\<close>
  with the loop counter \<open>i + 1\<close> as the recursion argument.
\<close>

fun lastNilPkt_from :: "'a option list \<Rightarrow> nat \<Rightarrow> int" where
  "lastNilPkt_from buf 0 = - 1"
| "lastNilPkt_from buf (Suc i) = (if buf ! i = None then int i else lastNilPkt_from buf i)"

text \<open>
  The condition under which the collecting loop skips a history packet (\<open>continue\<close>); the
  differences are \<open>uint16\<close> and \<open>uint32\<close> subtractions.
\<close>

definition red_skip :: "rtp_Packet \<Rightarrow> rtp_Packet \<Rightarrow> nat \<Rightarrow> bool" where
  "red_skip pkt prev redLength =
     (SequenceNumber pkt = SequenceNumber prev
      \<or> SequenceNumber pkt - SequenceNumber prev > of_nat redLength
      \<or> Timestamp pkt - Timestamp prev \<ge> 2 ^ 14)"

text \<open>
  The collecting loop over \<open>r.pktBuff[lastNilPkt+1:]\<close>.  Reading a field of a nil entry
  would panic.
\<close>

fun collect_redPkts :: "rtp_Packet \<Rightarrow> nat \<Rightarrow> rtp_Packet option list \<Rightarrow> red_error + rtp_Packet list" where
  "collect_redPkts pkt redLength [] = Inr []"
| "collect_redPkts pkt redLength (None # rest) = Inl PanicNilDereference"
| "collect_redPkts pkt redLength (Some prev # rest) =
     (case collect_redPkts pkt redLength rest of
        Inl e \<Rightarrow> Inl e
      | Inr ps \<Rightarrow> Inr (if red_skip pkt prev redLength then ps else prev # ps))"

text \<open>\<^verbatim>\<open>for j := 0; j < i; j++ { r.pktBuff[j] = r.pktBuff[j+1] }\<close>\<close>

definition age_out :: "'a list \<Rightarrow> nat \<Rightarrow> 'a list" where
  "age_out buf i = fold (\<lambda>j b. b[j := b ! (j + 1)]) [0..<i] buf"

text \<open>
  The inserting loop: from the top slot down, the first slot that is empty or holds a
  packet not newer than the incoming one (\<open>uint16\<close> difference below \<open>2^15\<close>) takes the
  packet after the slots below have been shifted down; a packet older than the whole
  history is not inserted.
\<close>

fun insert_pkt :: "rtp_Packet \<Rightarrow> rtp_Packet option list \<Rightarrow> nat \<Rightarrow> rtp_Packet option list" where
  "insert_pkt pkt buf 0 = buf"
| "insert_pkt pkt buf (Suc i) =
     (if (case buf ! i of None \<Rightarrow> True
          | Some h \<Rightarrow> SequenceNumber pkt - SequenceNumber h < 2 ^ 15)
      then (age_out buf i)[i := Some pkt]
      else insert_pkt pkt buf i)"

text \<open>The 32-bit header of a redundancy block, step by step as the source computes it.\<close>

definition red_header :: "rtp_Packet \<Rightarrow> rtp_Packet \<Rightarrow> 32 word" where
  "red_header primary p =
     (let h0 = (ucast (128 OR opusPT) :: 32 word);
          h1 = push_bit 14 h0;
          h2 = h1 OR ((Timestamp primary - Timestamp p) AND 16383);
          h3 = push_bit 10 h2;
          h4 = h3 OR ((of_nat (length (Payload p)) :: 32 word) AND 1023)
      in h4)"

text \<open>\<open>binary.BigEndian.PutUint32\<close>: the four bytes stored, most significant first.\<close>

definition PutUint32 :: "32 word \<Rightarrow> byte list" where
  "PutUint32 v = [ucast (drop_bit 24 v), ucast (drop_bit 16 v), ucast (drop_bit 8 v), ucast v]"

text \<open>Storing the bytes \<open>bs\<close> into a buffer from \<open>index\<close> on, when they fit.\<close>

definition write_at :: "byte list \<Rightarrow> nat \<Rightarrow> byte list \<Rightarrow> byte list" where
  "write_at buf index bs = take index buf @ bs @ drop (index + length bs) buf"

text \<open>
  The header loop of \<open>encodeRedForPrimary\<close>, threading the buffer and the index.  The
  slice \<open>redPayload[index:]\<close> must hold four bytes, or \<open>PutUint32\<close> panics.
\<close>

fun put_headers :: "rtp_Packet \<Rightarrow> rtp_Packet list \<Rightarrow> byte list \<Rightarrow> nat \<Rightarrow> red_error + (byte list \<times> nat)" where
  "put_headers primary [] buf index = Inr (buf, index)"
| "put_headers primary (p # ps) buf index =
     (if length buf < index + 4 then Inl PanicIndexOutOfRange
      else put_headers primary ps (write_at buf index (PutUint32 (red_header primary p))) (index + 4))"

text \<open>
  The data loop: \<open>copy\<close> stores as many bytes as fit, and storing fewer than the
  payload has is the error return.
\<close>

fun put_blocks :: "rtp_Packet list \<Rightarrow> byte list \<Rightarrow> nat \<Rightarrow> red_error + (byte list \<times> nat)" where
  "put_blocks [] buf index = Inr (buf, index)"
| "put_blocks (p # ps) buf index =
     (if length buf < index then Inl PanicIndexOutOfRange
      else if min (length buf - index) (length (Payload p)) < length (Payload p)
        then Inl (ErrNotEnoughSpace (length (Payload p)))
      else put_blocks ps (write_at buf index (Payload p)) (index + length (Payload p)))"

text \<open>\<^verbatim>\<open>payloadSize := len(primary.Payload) + 1; for _, p := range redPkts { payloadSize += len(p.Payload) + 4 }\<close>\<close>

definition red_payloadSize :: "rtp_Packet list \<Rightarrow> rtp_Packet \<Rightarrow> nat" where
  "red_payloadSize redPkts primary =
     fold (\<lambda>p n. n + (length (Payload p) + 4)) redPkts (length (Payload primary) + 1)"

text \<open>
  The function \<open>encodeRedForPrimary\<close>.  On success the result is the returned length and
  the buffer as written; on an error the partly written scratch buffer is dropped, as the
  caller drops it.
\<close>

definition encodeRedForPrimary :: "rtp_Packet list \<Rightarrow> rtp_Packet \<Rightarrow> byte list \<Rightarrow> red_error + (nat \<times> byte list)" where
  "encodeRedForPrimary redPkts primary redPayload =
     (let redPkts' = (if red_payloadSize redPkts primary > length redPayload then [] else redPkts)
      in case put_headers primary redPkts' redPayload 0 of
           Inl e \<Rightarrow> Inl e
         | Inr (buf1, index1) \<Rightarrow>
             (if length buf1 \<le> index1 then Inl PanicIndexOutOfRange
              else (case put_blocks (redPkts' @ [primary]) (buf1[index1 := opusPT]) (index1 + 1) of
                      Inl e \<Rightarrow> Inl e
                    | Inr (buf2, index2) \<Rightarrow> Inr (index2, buf2))))"

text \<open>The slice \<open>r.pktBuff[lastNilPkt+1:]\<close>.\<close>

definition red_history :: "RedReceiver \<Rightarrow> rtp_Packet option list" where
  "red_history r = drop (nat (lastNilPkt_from (pktBuff r) (length (pktBuff r)) + 1)) (pktBuff r)"

text \<open>
  The method \<open>RedReceiver.encodeRedForPrimary\<close>: collect the redundancy, insert the packet
  into the history, encode.
\<close>

definition RedReceiver_encodeRedForPrimary ::
  "RedReceiver \<Rightarrow> rtp_Packet \<Rightarrow> byte list \<Rightarrow> (red_error + (nat \<times> byte list)) \<times> RedReceiver" where
  "RedReceiver_encodeRedForPrimary r pkt redPayload =
     (let redLength = length (pktBuff r)
      in case collect_redPkts pkt redLength (red_history r) of
           Inl e \<Rightarrow> (Inl e, r)
         | Inr redPkts \<Rightarrow>
             (encodeRedForPrimary redPkts pkt redPayload,
              r\<lparr>pktBuff := insert_pkt pkt (pktBuff r) redLength\<rparr>))"

text \<open>
  What \<open>ForwardRTP\<close> sends on: nothing after an error, else the first \<open>redLen\<close> bytes
  of the buffer (\<open>r.redPayloadBuf[:redLen]\<close>).
\<close>

definition red_emitted :: "(red_error + (nat \<times> byte list)) \<Rightarrow> byte list option" where
  "red_emitted res = (case res of Inl e \<Rightarrow> None | Inr (redLen, buf) \<Rightarrow> Some (take redLen buf))"

text \<open>\<open>NewRedReceiver\<close>: the history starts empty.\<close>

definition NewRedReceiver :: RedReceiver where
  "NewRedReceiver = \<lparr>pktBuff = replicate maxRedCount None\<rparr>"

text \<open>
  The header block as the specification lays it out: \<open>F\<close> (1 bit, set) at bit 31, the
  payload type (7 bits) from bit 24, the timestamp offset (14 bits) from bit 10, the block
  length (10 bits) from bit 0.
\<close>

definition spec_header_block :: "rtp_Packet \<Rightarrow> rtp_Packet \<Rightarrow> 32 word" where
  "spec_header_block primary p =
     push_bit 31 1 OR push_bit 24 (ucast opusPT)
       OR push_bit 10 (take_bit 14 (Timestamp primary - Timestamp p))
       OR take_bit 10 (of_nat (length (Payload p)))"

text \<open>
  The payload as the specification lays it out: the header blocks, the one-byte final
  header, the redundancy payloads, the primary payload.
\<close>

definition red_layout :: "rtp_Packet \<Rightarrow> rtp_Packet list \<Rightarrow> byte list" where
  "red_layout primary blocks =
     concat (map (\<lambda>p. PutUint32 (spec_header_block primary p)) blocks) @ [opusPT]
       @ concat (map Payload blocks) @ Payload primary"

text \<open>The packets held in the history after its last empty slot, oldest first.\<close>

definition history_packets :: "RedReceiver \<Rightarrow> rtp_Packet list" where
  "history_packets r = [p. Some p \<leftarrow> red_history r]"

text \<open>
  A history packet qualifies as redundancy for \<open>pkt\<close> when it is one or two sequence
  numbers behind it and less than \<open>2^14\<close> timestamp units behind it.
\<close>

definition red_eligible :: "rtp_Packet \<Rightarrow> rtp_Packet \<Rightarrow> bool" where
  "red_eligible pkt prev =
     (SequenceNumber pkt \<noteq> SequenceNumber prev
      \<and> SequenceNumber pkt - SequenceNumber prev \<le> 2
      \<and> Timestamp pkt - Timestamp prev < 16384)"

text \<open>
  The redundancy attached to the emitted packet: the qualifying packets, or none at all
  when the payload they would need exceeds the buffer.
\<close>

definition red_attached :: "RedReceiver \<Rightarrow> rtp_Packet \<Rightarrow> rtp_Packet list" where
  "red_attached r pkt =
     (let selected = filter (red_eligible pkt) (history_packets r)
      in if mtuSize < length (Payload pkt) + 1 + sum_list (map (\<lambda>p. length (Payload p) + 4) selected)
         then [] else selected)"

text \<open>
  The selection as the specification words it: within 16 sequence numbers of the current
  packet, not equal to it, and within 16384 timestamp units.
\<close>

definition spec_red_eligible :: "rtp_Packet \<Rightarrow> rtp_Packet \<Rightarrow> bool" where
  "spec_red_eligible pkt prev =
     (SequenceNumber pkt \<noteq> SequenceNumber prev
      \<and> SequenceNumber pkt - SequenceNumber prev \<le> 16
      \<and> Timestamp pkt - Timestamp prev < 16384)"

text \<open>
  A history holding packets 100 and 101, and three next packets: 102 in sequence, 106
  after a gap, and 102 with a payload that leaves no room for redundancy.
\<close>

definition red_example :: RedReceiver where
  "red_example = \<lparr>pktBuff = [Some \<lparr>SequenceNumber = 100, Timestamp = 1000, Payload = [1, 2]\<rparr>,
                              Some \<lparr>SequenceNumber = 101, Timestamp = 1480, Payload = [3]\<rparr>]\<rparr>"

definition red_example_next :: rtp_Packet where
  "red_example_next = \<lparr>SequenceNumber = 102, Timestamp = 1960, Payload = [4, 5]\<rparr>"

definition red_example_jump :: rtp_Packet where
  "red_example_jump = \<lparr>SequenceNumber = 106, Timestamp = 3880, Payload = [6]\<rparr>"

definition red_example_big :: rtp_Packet where
  "red_example_big = \<lparr>SequenceNumber = 102, Timestamp = 1960, Payload = replicate 1495 7\<rparr>"

text \<open>Packet 102 with a payload as long as the buffer.\<close>

definition red_example_full :: rtp_Packet where
  "red_example_full = \<lparr>SequenceNumber = 102, Timestamp = 1960, Payload = replicate 1500 7\<rparr>"

text \<open>A history holding packet 101 alone, with a payload of 1024 bytes.\<close>

definition red_example_long :: RedReceiver where
  "red_example_long = \<lparr>pktBuff = [None,
      Some \<lparr>SequenceNumber = 101, Timestamp = 1480, Payload = replicate 1024 9\<rparr>]\<rparr>"

section \<open>Layered bitrates (StreamTrackerManager.getLayeredBitrateLocked)\<close>

text \<open>
  Modelled from the spec: the constants \<open>DefaultMaxLayerSpatial = 2\<close> and
  \<open>DefaultMaxLayerTemporal = 3\<close> of the buffer package.  \<open>Bitrates\<close> is the array
  \<open>[DefaultMaxLayerSpatial + 1][DefaultMaxLayerTemporal + 1]int64\<close>, here a list of rows.
\<close>

definition DefaultMaxLayerSpatial :: nat where "DefaultMaxLayerSpatial = 2"

definition DefaultMaxLayerTemporal :: nat where "DefaultMaxLayerTemporal = 3"

type_synonym Bitrates = "int list list"

text \<open>\<open>var br Bitrates\<close>: the zero value.\<close>

definition zero_Bitrates :: Bitrates where
  "zero_Bitrates = replicate (DefaultMaxLayerSpatial + 1) (replicate (DefaultMaxLayerTemporal + 1) 0)"

text \<open>\<open>hasSpatialLayerLocked\<close>: a linear search of \<open>availableLayers\<close>.\<close>

definition hasSpatialLayerLocked :: "StreamTrackerManager \<Rightarrow> int \<Rightarrow> bool" where
  "hasSpatialLayerLocked s layer = (layer \<in> set (availableLayers s))"

text \<open>
  \<^verbatim>\<open>for j := 0; j < len(br[i]); j++ { br[i][j] = tls[j] }\<close>: the row becomes the first
  entries of \<open>tls\<close>; a shorter \<open>tls\<close> is an index out of range (\<open>None\<close>).
\<close>

definition copy_row :: "int list \<Rightarrow> int list \<Rightarrow> int list option" where
  "copy_row row tls = (if length tls < length row then None else Some (take (length row) tls))"

text \<open>
  The first loop, \<open>for i, tracker := range s.trackers\<close>: a nil tracker leaves its row
  zero; a tracker of a layer that is not available contributes zeros, any other its
  cumulative temporal bitrates.
\<close>

fun fill_rows :: "StreamTrackerManager \<Rightarrow> nat \<Rightarrow> StreamTracker option list \<Rightarrow> Bitrates \<Rightarrow> Bitrates option" where
  "fill_rows s i [] br = Some br"
| "fill_rows s i (None # rest) br = fill_rows s (Suc i) rest br"
| "fill_rows s i (Some tracker # rest) br =
     (let tls = (if hasSpatialLayerLocked s (int i) then BitrateTemporalCumulative tracker
                 else replicate (DefaultMaxLayerTemporal + 1) 0)
      in case copy_row (br ! i) tls of
           None \<Rightarrow> None
         | Some row \<Rightarrow> fill_rows s (Suc i) rest (br[i := row]))"

text \<open>
  \<^verbatim>\<open>for k := i - 1; k >= 0; k-- { br[i][j] += br[k][j] }\<close> with the counter \<open>k + 1\<close> as
  the recursion argument; the sum is an \<open>int64\<close> sum.
\<close>

fun add_lower :: "nat \<Rightarrow> nat \<Rightarrow> nat \<Rightarrow> Bitrates \<Rightarrow> Bitrates" where
  "add_lower i j 0 br = br"
| "add_lower i j (Suc k) br =
     add_lower i j k (br[i := (br ! i)[j := int64_wrap (br ! i ! j + br ! k ! j)]])"

text \<open>
  \<^verbatim>\<open>for j := len(br[i]) - 1; j >= 0; j-- { if br[i][j] != 0 { ... } }\<close>
\<close>

fun svc_columns :: "nat \<Rightarrow> nat \<Rightarrow> Bitrates \<Rightarrow> Bitrates" where
  "svc_columns i 0 br = br"
| "svc_columns i (Suc j) br = svc_columns i j (if br ! i ! j \<noteq> 0 then add_lower i j i br else br)"

text \<open>\<^verbatim>\<open>for i := len(br) - 1; i >= 1; i-- { ... }\<close>\<close>

fun svc_rows :: "nat \<Rightarrow> Bitrates \<Rightarrow> Bitrates" where
  "svc_rows 0 br = br"
| "svc_rows (Suc i) br = (if 1 \<le> i then svc_rows i (svc_columns i (length (br ! i)) br) else br)"

text \<open>
  \<open>getLayeredBitrateLocked\<close>: the copy of the available layers and the matrix, summed over
  lower spatial layers for an SVC track.
\<close>

definition getLayeredBitrateLocked :: "StreamTrackerManager \<Rightarrow> (int list \<times> Bitrates) option" where
  "getLayeredBitrateLocked s =
     (case fill_rows s 0 (trackers s) zero_Bitrates of
        None \<Rightarrow> None
      | Some br \<Rightarrow> Some (availableLayers s, if isSVC s then svc_rows (length br) br else br))"

text \<open>\<open>GetLayeredBitrate\<close> takes the read lock and calls the locked function.\<close>

definition GetLayeredBitrate :: "StreamTrackerManager \<Rightarrow> (int list \<times> Bitrates) option" where
  "GetLayeredBitrate s = getLayeredBitrateLocked s"

text \<open>
  An SVC track with trackers for spatial layers 0 and 1, both measuring the same
  cumulative temporal bitrates: once with layer 0 alone available, once with both.
\<close>

definition svc_one_layer :: StreamTrackerManager where
  "svc_one_layer = \<lparr>isSVC = True, clockRate = 90000, maxPublishedLayer = 1, maxTemporalLayerSeen = 3,
     trackers = [Some \<lparr>BitrateTemporalCumulative = [100000, 150000, 180000, 200000]\<rparr>,
                 Some \<lparr>BitrateTemporalCumulative = [100000, 150000, 180000, 200000]\<rparr>, None],
     availableLayers = [0], senderReports = [None, None, None]\<rparr>"

definition svc_two_layers :: StreamTrackerManager where
  "svc_two_layers = svc_one_layer\<lparr>availableLayers := [0, 1]\<rparr>"

text \<open>The row a tracker slot contributes to the matrix before the SVC summation.\<close>

definition tracker_row :: "StreamTrackerManager \<Rightarrow> nat \<Rightarrow> StreamTracker option \<Rightarrow> int list" where
  "tracker_row s i t =
     (case t of
        None \<Rightarrow> replicate (DefaultMaxLayerTemporal + 1) 0
      | Some tracker \<Rightarrow>
          if hasSpatialLayerLocked s (int i) then BitrateTemporalCumulative tracker
          else replicate (DefaultMaxLayerTemporal + 1) 0)"

text \<open>
  The matrix before the SVC summation: row \<open>i\<close> is what tracker slot \<open>i\<close> contributes.
\<close>

definition layer_rows :: "StreamTrackerManager \<Rightarrow> Bitrates" where
  "layer_rows s = map (\<lambda>(i, t). tracker_row s i t) (enumerate 0 (trackers s))"

text \<open>
  An entry of row 1 and of row 2 after the SVC summation, from the entries of its column
  before it.
\<close>

definition cum1 :: "int \<Rightarrow> int \<Rightarrow> int" where
  "cum1 b a = (if b \<noteq> 0 then int64_wrap (b + a) else b)"

definition cum2 :: "int \<Rightarrow> int \<Rightarrow> int \<Rightarrow> int" where
  "cum2 c b a = (if c \<noteq> 0 then int64_wrap (int64_wrap (c + b) + a) else c)"

text \<open>
  A tracker slot is well-formed when its tracker (if any) reports one bitrate per
  temporal layer, each non-negative and below \<open>2^61\<close>, so that no \<open>int64\<close> sum of three
  of them overflows.
\<close>

definition tracker_ok :: "StreamTracker option \<Rightarrow> bool" where
  "tracker_ok t =
     (case t of
        None \<Rightarrow> True
      | Some tracker \<Rightarrow>
          length (BitrateTemporalCumulative tracker) = DefaultMaxLayerTemporal + 1
          \<and> list_all (\<lambda>x. 0 \<le> x \<and> x < 2 ^ 61) (BitrateTemporalCumulative tracker))"

section \<open>Signal relay: the sink's writer (pkg/routing/signal.go)\<close>

text \<open>
  \<open>config.SignalRelayConfig\<close>: three durations, in nanoseconds (\<open>time.Duration\<close> is an
  \<open>int64\<close>); and the two flags of \<open>SignalSinkParams\<close>.
\<close>

record SignalRelayConfig =
  RetryTimeout :: int
  MinRetryInterval :: int
  MaxRetryInterval :: int

record SignalSinkParams =
  Config :: SignalRelayConfig
  CloseOnFailure :: bool
  BlockOnClose :: bool

text \<open>The mutable fields of \<open>signalMessageSink\<close>, guarded by its mutex.\<close>

record 'm signalMessageSink =
  s_seq :: "64 word"
  s_queue :: "'m list"
  s_writing :: bool
  s_draining :: bool

text \<open>
  What one iteration of the writer's loop meets from outside: whether the stream is
  already closed at the head of the loop; whether \<open>Stream.Send\<close> fails; whether the clock
  is past the deadline at that failure; and what happened while the mutex was released
  for the send: the messages that \<open>WriteMessage\<close> appended and whether \<open>Close\<close> set
  \<open>draining\<close>.
\<close>

record 'm write_env =
  streamIsClosed :: bool
  sendErr :: bool
  afterDeadline :: bool
  enqueued :: "'m list"
  closeCalled :: bool

text \<open>
  The outcome of one iteration: the \<open>break\<close> at the head of the loop, a \<open>break\<close> after
  the send, or another iteration.  The latter two carry the sink, whether \<open>err\<close> is
  non-nil and the frame sent; the last also the next interval.
\<close>

datatype 'm iter_result =
    LoopBreak
  | LoopExit "'m signalMessageSink" bool "'m RelaySignalMessage"
  | LoopNext "'m signalMessageSink" int bool "'m RelaySignalMessage"

text \<open>
  \<^verbatim>\<open>interval *= 2; if interval > s.Config.MaxRetryInterval { interval = s.Config.MaxRetryInterval }\<close>
\<close>

definition next_interval :: "SignalSinkParams \<Rightarrow> int \<Rightarrow> int" where
  "next_interval p interval =
     (let doubled = int64_wrap (interval * 2)
      in if doubled > MaxRetryInterval (Config p) then MaxRetryInterval (Config p) else doubled)"

text \<open>One iteration of the \<open>for\<close> loop of \<open>signalMessageSink.write\<close>.\<close>

definition write_iter :: "SignalSinkParams \<Rightarrow> 'm signalMessageSink \<Rightarrow> int \<Rightarrow> 'm write_env \<Rightarrow> 'm iter_result" where
  "write_iter p s interval e =
     (let close = s_draining s
      in if (\<not> close \<and> s_queue s = []) \<or> streamIsClosed e then LoopBreak
         else
           (let msg = \<lparr>GetSeq = s_seq s, GetClose = close, GetMessages = s_queue s\<rparr>;
                n = length (s_queue s);
                s1 = s\<lparr>s_queue := s_queue s @ enqueued e,
                       s_draining := (s_draining s \<or> closeCalled e)\<rparr>
            in if sendErr e then
                 (if afterDeadline e
                  then LoopExit (s1\<lparr>s_seq := s_seq s1 + of_nat (length (s_queue s1)), s_queue := []\<rparr>) True msg
                  else LoopNext s1 (next_interval p interval) True msg)
               else
                 (let s2 = s1\<lparr>s_seq := s_seq s1 + of_nat n, s_queue := drop n (s_queue s1)\<rparr>
                  in if close then LoopExit s2 False msg
                     else LoopNext s2 (MinRetryInterval (Config p)) False msg)))"

text \<open>
  The statements after the loop: clear \<open>writing\<close>, and the calls of \<open>Stream.Close\<close> in
  the order made, each with its argument (\<open>None\<close> for \<open>nil\<close>).
\<close>

definition write_finish :: "SignalSinkParams \<Rightarrow> 'm signalMessageSink \<Rightarrow> bool
    \<Rightarrow> 'm signalMessageSink \<times> signal_error option list" where
  "write_finish p s err =
     (s\<lparr>s_writing := False\<rparr>,
      (if s_draining s then [None] else [])
        @ (if err \<and> CloseOnFailure p then [Some ErrSignalWriteFailed] else []))"

text \<open>
  The loop, run against a list of such encounters, collecting the frames sent with the
  timeout of each send.  The list is the fuel: \<open>None\<close> when it ends before the loop does.
\<close>

fun write_loop :: "SignalSinkParams \<Rightarrow> 'm write_env list \<Rightarrow> 'm signalMessageSink \<Rightarrow> int \<Rightarrow> bool
    \<Rightarrow> ('m RelaySignalMessage \<times> int) list
    \<Rightarrow> ('m signalMessageSink \<times> bool \<times> ('m RelaySignalMessage \<times> int) list) option" where
  "write_loop p [] s interval err sent = None"
| "write_loop p (e # es) s interval err sent =
     (case write_iter p s interval e of
        LoopBreak \<Rightarrow> Some (s, err, sent)
      | LoopExit s' err' msg \<Rightarrow> Some (s', err', sent @ [(msg, interval)])
      | LoopNext s' interval' err' msg \<Rightarrow> write_loop p es s' interval' err' (sent @ [(msg, interval)]))"

text \<open>
  \<open>signalMessageSink.write\<close>: the interval starts at \<open>MinRetryInterval\<close> and \<open>err\<close> at
  nil.  The result is the sink, the frames sent and the \<open>Stream.Close\<close> calls.
\<close>

definition sink_write :: "SignalSinkParams \<Rightarrow> 'm write_env list \<Rightarrow> 'm signalMessageSink
    \<Rightarrow> ('m signalMessageSink \<times> ('m RelaySignalMessage \<times> int) list \<times> signal_error option list) option" where
  "sink_write p es s =
     (case write_loop p es s (MinRetryInterval (Config p)) False [] of
        None \<Rightarrow> None
      | Some (s', err, sent) \<Rightarrow>
          (case write_finish p s' err of (s'', closes) \<Rightarrow> Some (s'', sent, closes)))"

text \<open>
  The default configuration (\<open>RetryTimeout\<close> 7.5 s, \<open>MinRetryInterval\<close> 0.5 s,
  \<open>MaxRetryInterval\<close> 4 s), the sink parameters of \<open>StartParticipantSignal\<close>, a sink
  without \<open>CloseOnFailure\<close>, a sink with three queued messages, and three encounters:
  a failed send, a successful one, a failed one past the deadline.
\<close>

definition relay_config :: SignalRelayConfig where
  "relay_config = \<lparr>RetryTimeout = 7500000000, MinRetryInterval = 500000000, MaxRetryInterval = 4000000000\<rparr>"

definition client_sink :: SignalSinkParams where
  "client_sink = \<lparr>Config = relay_config, CloseOnFailure = True, BlockOnClose = True\<rparr>"

definition plain_sink :: SignalSinkParams where
  "plain_sink = \<lparr>Config = relay_config, CloseOnFailure = False, BlockOnClose = False\<rparr>"

definition sink_three :: "nat signalMessageSink" where
  "sink_three = \<lparr>s_seq = 0, s_queue = [1, 2, 3], s_writing = True, s_draining = False\<rparr>"

definition env_fail :: "nat write_env" where
  "env_fail = \<lparr>streamIsClosed = False, sendErr = True, afterDeadline = False, enqueued = [], closeCalled = False\<rparr>"

definition env_ok :: "nat write_env" where
  "env_ok = \<lparr>streamIsClosed = False, sendErr = False, afterDeadline = False, enqueued = [], closeCalled = False\<rparr>"

definition env_timeout :: "nat write_env" where
  "env_timeout = \<lparr>streamIsClosed = False, sendErr = True, afterDeadline = True, enqueued = [], closeCalled = False\<rparr>"

section \<open>Properties of the frame reader\<close>

lemma sint_small:
  fixes w :: "64 word"
  assumes "unat w < 2 ^ 63"
  shows "sint w = uint w"
proof -
  have "int (unat w) < int (2 ^ 63)" using assms by (simp only: of_nat_less_iff)
  hence "uint w < 2 ^ 63" by simp
  hence "signed_take_bit 63 (uint w) = uint w"
    using uint_ge_0 [of w] by (intro signed_take_bit_int_eq_self) linarith+
  thus ?thesis by (simp add: sint_uint)
qed

lemma sint_lag:
  fixes a b :: "64 word"
  assumes "b < a" "unat a < 2 ^ 63"
  shows "sint (a - b) = uint (a - b)"
proof -
  have "unat (a - b) \<le> unat a" using assms(1)
    by (simp add: unat_sub word_less_nat_alt word_le_nat_alt)
  hence "unat (a - b) < 2 ^ 63" using assms(2) by simp
  thus ?thesis by (rule sint_small)
qed

text \<open>
  C7.  Reading a frame when the inner reader yields the batch \<open>res\<close> and the local
  counter is below \<open>2^63\<close> (so that the lag is a non-negative Go \<open>int\<close>):
  a frame whose seq is ahead of the counter gives \<open>ErrSignalMessageDropped\<close>, delivers
  nothing and leaves the counter alone; a frame whose seq is behind is delivered without
  its first \<open>counter - seq\<close> messages (nothing is delivered when the overlap covers the
  batch); a frame at the counter is delivered whole; and in both delivering cases the
  counter advances by the number of messages delivered.
\<close>

theorem signal_reader_contract:
  assumes rd: "reader msg = Inr res" and bound: "unat (r_seq r) < 2 ^ 63"
  shows "(r_seq r < GetSeq msg \<longrightarrow>
            signalMessageReader_Read reader r msg = (Inl ErrSignalMessageDropped, r))
       \<and> (GetSeq msg < r_seq r \<longrightarrow>
            signalMessageReader_Read reader r msg =
              (Inr (drop (unat (r_seq r - GetSeq msg)) res),
               r\<lparr>r_seq := r_seq r + of_nat (length (drop (unat (r_seq r - GetSeq msg)) res))\<rparr>)
            \<and> (length res \<le> unat (r_seq r - GetSeq msg) \<longrightarrow>
                 signalMessageReader_Read reader r msg = (Inr [], r)))
       \<and> (GetSeq msg = r_seq r \<longrightarrow>
            signalMessageReader_Read reader r msg =
              (Inr res, r\<lparr>r_seq := r_seq r + of_nat (length res)\<rparr>))"
proof (intro conjI impI)
  assume "r_seq r < GetSeq msg"
  thus "signalMessageReader_Read reader r msg = (Inl ErrSignalMessageDropped, r)"
    by (simp add: signalMessageReader_Read_def rd)
next
  assume eq: "GetSeq msg = r_seq r"
  thus "signalMessageReader_Read reader r msg =
          (Inr res, r\<lparr>r_seq := r_seq r + of_nat (length res)\<rparr>)"
    by (simp add: signalMessageReader_Read_def rd trim_overlap_def)
next
  assume lt: "GetSeq msg < r_seq r"
  let ?d = "unat (r_seq r - GetSeq msg)"
  have s: "sint (r_seq r - GetSeq msg) = uint (r_seq r - GetSeq msg)"
    using lt bound by (rule sint_lag)
  have u: "nat (uint (r_seq r - GetSeq msg)) = ?d" by simp
  have tr: "trim_overlap (r_seq r) (GetSeq msg) res = Inr (drop ?d res)"
  proof (cases "int (length res) < uint (r_seq r - GetSeq msg)")
    case True
    hence "length res \<le> ?d" using u by linarith
    thus ?thesis using lt True by (simp add: trim_overlap_def s Let_def)
  next
    case False
    thus ?thesis using lt u by (simp add: trim_overlap_def s Let_def)
  qed
  have nl: "\<not> r_seq r < GetSeq msg" using lt by simp
  show full: "signalMessageReader_Read reader r msg =
          (Inr (drop ?d res), r\<lparr>r_seq := r_seq r + of_nat (length (drop ?d res))\<rparr>)"
    by (simp add: signalMessageReader_Read_def rd tr nl del: length_drop)
  assume "length res \<le> ?d"
  thus "signalMessageReader_Read reader r msg = (Inr [], r)"
    using full by simp
qed

theorem signal_reader_contract_witness:
  "signalMessageReader_Read signalResponseMessageReader_Read \<lparr>r_seq = 5\<rparr>
     \<lparr>GetSeq = 3, GetClose = False, GetMessages = [10, 11, 12, 13 :: nat]\<rparr>
     = (Inr [12, 13], \<lparr>r_seq = 7\<rparr>)
   \<and> signalMessageReader_Read signalResponseMessageReader_Read \<lparr>r_seq = 5\<rparr>
     \<lparr>GetSeq = 6, GetClose = False, GetMessages = [10, 11 :: nat]\<rparr>
     = (Inl ErrSignalMessageDropped, \<lparr>r_seq = 5\<rparr>)
   \<and> signalMessageReader_Read signalResponseMessageReader_Read \<lparr>r_seq = 5\<rparr>
     \<lparr>GetSeq = 5, GetClose = False, GetMessages = [10, 11 :: nat]\<rparr>
     = (Inr [10, 11], \<lparr>r_seq = 7\<rparr>)"
  using signal_reader_contract [of signalResponseMessageReader_Read
          "\<lparr>GetSeq = 3, GetClose = False, GetMessages = [10, 11, 12, 13 :: nat]\<rparr>"
          "[10, 11, 12, 13]" "\<lparr>r_seq = 5\<rparr>"]
        signal_reader_contract [of signalResponseMessageReader_Read
          "\<lparr>GetSeq = 6, GetClose = False, GetMessages = [10, 11 :: nat]\<rparr>"
          "[10, 11]" "\<lparr>r_seq = 5\<rparr>"]
        signal_reader_contract [of signalResponseMessageReader_Read
          "\<lparr>GetSeq = 5, GetClose = False, GetMessages = [10, 11 :: nat]\<rparr>"
          "[10, 11]" "\<lparr>r_seq = 5\<rparr>"]
  by (simp add: signalResponseMessageReader_Read_def)

section \<open>Cross-layer RTP timestamp alignment\<close>

lemma time_Sub_self: "time_Sub t t = 0"
  by (simp add: time_Sub_def)

lemma int64_wrap_id: "- (2 ^ 63) \<le> x \<Longrightarrow> x < 2 ^ 63 \<Longrightarrow> int64_wrap x = x"
  by (simp add: int64_wrap_def)

lemma go_quo_zero: "go_quo 0 b = 0"
  by (simp add: go_quo_def)

lemma time_Sub_mult:
  assumes c: "0 \<le> c" and b: "\<bar>(t - u) * c\<bar> < 2 ^ 63"
  shows "time_Sub t u * c = (t - u) * c"
proof (cases "c = 0")
  case True
  thus ?thesis by simp
next
  case False
  hence "1 \<le> c" using c by simp
  hence "\<bar>t - u\<bar> * 1 \<le> \<bar>t - u\<bar> * c" by (intro mult_left_mono) simp_all
  hence "\<bar>t - u\<bar> \<le> \<bar>(t - u) * c\<bar>" using c by (simp add: abs_mult)
  hence "\<bar>t - u\<bar> < 2 ^ 63" using b by linarith
  hence "\<not> t - u < - (2 ^ 63)" and "\<not> 2 ^ 63 - 1 < t - u" by linarith+
  hence "time_Sub t u = t - u" by (simp add: time_Sub_def Let_def)
  thus ?thesis by (simp only:)
qed

lemma rtpDiff_exact:
  assumes "\<bar>(t - u) * uint (c :: 32 word)\<bar> < 2 ^ 63"
  shows "int64_wrap (time_Sub t u * uint c) = (t - u) * uint c"
proof -
  have "time_Sub t u * uint c = (t - u) * uint c"
    using assms by (intro time_Sub_mult) simp_all
  moreover have "int64_wrap ((t - u) * uint c) = (t - u) * uint c"
    using assms by (intro int64_wrap_id) linarith+
  ultimately show ?thesis by (simp only:)
qed

text \<open>
  C10.  When the layer and the reference layer are the same layer, and that layer has a
  recorded sender report with a non-zero NTP timestamp, the timestamp is returned
  unchanged.
\<close>

theorem reference_ts_same_layer:
  assumes "0 \<le> layer" and "senderReportAt s layer = Some sr" and "NTPTimestamp sr \<noteq> 0"
  shows "GetReferenceLayerRTPTimestamp ntpTime s ts layer layer = Inr ts"
  using assms
  by (simp add: GetReferenceLayerRTPTimestamp_def time_Sub_self int64_wrap_id go_quo_zero)

theorem reference_ts_same_layer_witness:
  "GetReferenceLayerRTPTimestamp ntp_fixed_point_ns sr_example 105000 1 1 = Inr 105000"
  using reference_ts_same_layer [of 1 sr_example
          "\<lparr>NTPTimestamp = 4294967296000 + 429496730, RTPTimestamp = 110000\<rparr>"
          ntp_fixed_point_ns 105000]
  by (simp add: sr_example_def senderReportAt_def)

text \<open>
  What the function returns away from the overflow.  A negative layer or reference layer
  gives the invalid-layer error.  Otherwise a layer without a recorded sender report, or
  with one whose NTP timestamp is zero, gives the not-available error of that layer (the
  layer is checked first).  Otherwise, as long as the NTP difference in nanoseconds times
  the clock rate fits a signed 64-bit integer, the result is the specification's
  \<open>ts + (RTP_ref - (RTP_layer + (NTP_ref - NTP_layer) * clockRate / 10^9))\<close> modulo
  \<open>2^32\<close>, the division truncating towards zero.
\<close>

lemma reference_ts_in_range:
  "(layer < 0 \<or> referenceLayer < 0 \<longrightarrow>
      GetReferenceLayerRTPTimestamp ntpTime s ts layer referenceLayer = Inl (InvalidLayer layer referenceLayer))
   \<and> (0 \<le> layer \<and> 0 \<le> referenceLayer \<and>
        (senderReportAt s layer = None \<or> (\<exists>sr. senderReportAt s layer = Some sr \<and> NTPTimestamp sr = 0)) \<longrightarrow>
      GetReferenceLayerRTPTimestamp ntpTime s ts layer referenceLayer = Inl (LayerSRNotAvailable layer))
   \<and> (0 \<le> layer \<and> 0 \<le> referenceLayer \<and>
        (\<exists>sr. senderReportAt s layer = Some sr \<and> NTPTimestamp sr \<noteq> 0) \<and>
        (senderReportAt s referenceLayer = None \<or>
           (\<exists>sr. senderReportAt s referenceLayer = Some sr \<and> NTPTimestamp sr = 0)) \<longrightarrow>
      GetReferenceLayerRTPTimestamp ntpTime s ts layer referenceLayer = Inl (RefLayerSRNotAvailable referenceLayer))
   \<and> (\<forall>srLayer srRef.
        0 \<le> layer \<and> 0 \<le> referenceLayer \<and>
        senderReportAt s layer = Some srLayer \<and> NTPTimestamp srLayer \<noteq> 0 \<and>
        senderReportAt s referenceLayer = Some srRef \<and> NTPTimestamp srRef \<noteq> 0 \<and>
        \<bar>(ntpTime (NTPTimestamp srRef) - ntpTime (NTPTimestamp srLayer)) * uint (clockRate s)\<bar> < 2 ^ 63 \<longrightarrow>
      GetReferenceLayerRTPTimestamp ntpTime s ts layer referenceLayer =
        Inr (spec_mapped_ts ntpTime (clockRate s) ts srLayer srRef))"
proof (intro conjI impI allI)
  assume "layer < 0 \<or> referenceLayer < 0"
  thus "GetReferenceLayerRTPTimestamp ntpTime s ts layer referenceLayer = Inl (InvalidLayer layer referenceLayer)"
    by (simp add: GetReferenceLayerRTPTimestamp_def)
next
  assume "0 \<le> layer \<and> 0 \<le> referenceLayer \<and>
        (senderReportAt s layer = None \<or> (\<exists>sr. senderReportAt s layer = Some sr \<and> NTPTimestamp sr = 0))"
  thus "GetReferenceLayerRTPTimestamp ntpTime s ts layer referenceLayer = Inl (LayerSRNotAvailable layer)"
    by (auto simp add: GetReferenceLayerRTPTimestamp_def)
next
  assume "0 \<le> layer \<and> 0 \<le> referenceLayer \<and>
        (\<exists>sr. senderReportAt s layer = Some sr \<and> NTPTimestamp sr \<noteq> 0) \<and>
        (senderReportAt s referenceLayer = None \<or>
           (\<exists>sr. senderReportAt s referenceLayer = Some sr \<and> NTPTimestamp sr = 0))"
  thus "GetReferenceLayerRTPTimestamp ntpTime s ts layer referenceLayer = Inl (RefLayerSRNotAvailable referenceLayer)"
    by (auto simp add: GetReferenceLayerRTPTimestamp_def)
next
  fix srLayer srRef
  assume h: "0 \<le> layer \<and> 0 \<le> referenceLayer \<and>
        senderReportAt s layer = Some srLayer \<and> NTPTimestamp srLayer \<noteq> 0 \<and>
        senderReportAt s referenceLayer = Some srRef \<and> NTPTimestamp srRef \<noteq> 0 \<and>
        \<bar>(ntpTime (NTPTimestamp srRef) - ntpTime (NTPTimestamp srLayer)) * uint (clockRate s)\<bar> < 2 ^ 63"
  hence "int64_wrap (time_Sub (ntpTime (NTPTimestamp srRef)) (ntpTime (NTPTimestamp srLayer)) * uint (clockRate s))
         = (ntpTime (NTPTimestamp srRef) - ntpTime (NTPTimestamp srLayer)) * uint (clockRate s)"
    by (intro rtpDiff_exact) simp
  thus "GetReferenceLayerRTPTimestamp ntpTime s ts layer referenceLayer =
        Inr (spec_mapped_ts ntpTime (clockRate s) ts srLayer srRef)"
    using h by (simp add: GetReferenceLayerRTPTimestamp_def spec_mapped_ts_def Let_def)
qed


text \<open>The specification's scenario 5 returns 106000.\<close>

lemma reference_ts_in_range_example:
  "GetReferenceLayerRTPTimestamp ntp_fixed_point_ns sr_example 105000 0 1 = Inr 106000
   \<and> GetReferenceLayerRTPTimestamp ntp_fixed_point_ns sr_example 105000 (- 1) 1 = Inl (InvalidLayer (- 1) 1)
   \<and> GetReferenceLayerRTPTimestamp ntp_fixed_point_ns sr_example 105000 2 0 = Inl (LayerSRNotAvailable 2)
   \<and> GetReferenceLayerRTPTimestamp ntp_fixed_point_ns sr_example 105000 0 5 = Inl (RefLayerSRNotAvailable 5)"
  using reference_ts_in_range [of 0 1 ntp_fixed_point_ns sr_example 105000]
        reference_ts_in_range [of "- 1" 1 ntp_fixed_point_ns sr_example 105000]
        reference_ts_in_range [of 2 0 ntp_fixed_point_ns sr_example 105000]
        reference_ts_in_range [of 0 5 ntp_fixed_point_ns sr_example 105000]
  by (simp add: sr_example_def senderReportAt_def spec_mapped_ts_def ntp_fixed_point_ns_def
        go_quo_def drop_bit_eq_div take_bit_eq_mod Let_def)

text \<open>
  C1.  The claim states that for every call in which both layers have a recorded sender
  report with a non-zero NTP timestamp the result is
  \<open>ts + (RTP_ref - (RTP_layer + (NTP_ref - NTP_layer) * clockRate))\<close> modulo \<open>2^32\<close>.
  The code does not deliver that once the two reports are far apart: with layer 0
  reporting NTP 1000 s and layer 1 reporting NTP 173800 s (two days later) at a clock rate
  of 90000, the product \<open>ntpDiff.Nanoseconds() * int64(s.clockRate)\<close> is
  \<open>1.5552 * 10^19\<close>, beyond the \<open>int64\<close> range; it wraps, and the call returns
  2894859073 where the stated formula gives 1627984184.
\<close>

theorem reference_ts_overflow:
  "GetReferenceLayerRTPTimestamp ntp_fixed_point_ns sr_overflow 105000 0 1 = Inr 2894859073
   \<and> spec_mapped_ts ntp_fixed_point_ns 90000 105000
        \<lparr>NTPTimestamp = 4294967296000, RTPTimestamp = 100000\<rparr>
        \<lparr>NTPTimestamp = 746465316044800, RTPTimestamp = 110000\<rparr> = 1627984184
   \<and> GetReferenceLayerRTPTimestamp ntp_fixed_point_ns sr_overflow 105000 0 1 \<noteq>
       Inr (spec_mapped_ts ntp_fixed_point_ns 90000 105000
              \<lparr>NTPTimestamp = 4294967296000, RTPTimestamp = 100000\<rparr>
              \<lparr>NTPTimestamp = 746465316044800, RTPTimestamp = 110000\<rparr>)"
  by (simp add: GetReferenceLayerRTPTimestamp_def sr_overflow_def senderReportAt_def
        spec_mapped_ts_def ntp_fixed_point_ns_def time_Sub_def int64_wrap_def go_quo_def Let_def
        drop_bit_eq_div take_bit_eq_mod)

section \<open>Transitions of the VP9 selector\<close>

lemma vp9_finish_state: "snd (vp9_finish extPkt vp9 cur rv) = snd rv"
  by (simp add: vp9_finish_def split: prod.splits)

lemma vp9_commit_current: "currentLayer (snd (vp9_commit v upd)) = upd"
  by (simp add: vp9_commit_def)

lemma vp9_select_current:
  assumes "pktPayload extPkt = VP9Payload vp9" "IsValid (currentLayer v)" "currentLayer v \<noteq> targetLayer v"
  shows "currentLayer (snd (VP9_Select v extPkt)) =
           snd (vp9_spatial v extPkt vp9 (vp9_temporal v extPkt vp9 (currentLayer v, currentLayer v)))"
  using assms
  by (simp add: VP9_Select_def vp9_finish_state vp9_commit_current split: prod.splits)

text \<open>
  C4.  For a VP9 packet and a selector whose current layer is valid and differs from the
  target: the current temporal layer rises exactly on a packet with \<open>U\<close> and \<open>B\<close> whose
  temporal layer lies in \<open>(current, target]\<close>, and then becomes the packet's; it falls
  exactly on a packet with \<open>E\<close> when the target is lower, and then becomes the target's;
  the current spatial layer rises exactly on a packet with \<open>B\<close> and without \<open>P\<close> whose
  spatial layer lies in \<open>(current, target]\<close>, and then becomes the packet's; it falls
  exactly on a packet with \<open>E\<close> when the target is lower, and then becomes the target's.
\<close>

theorem vp9_select_transitions:
  assumes "pktPayload extPkt = VP9Payload vp9" and "IsValid (currentLayer v)"
    and "currentLayer v \<noteq> targetLayer v"
    and "v' = snd (VP9_Select v extPkt)"
  shows "(Temporal (currentLayer v) < Temporal (currentLayer v') \<longleftrightarrow>
            U vp9 \<and> B vp9 \<and> Temporal (currentLayer v) < Temporal (pktVideoLayer extPkt)
              \<and> Temporal (pktVideoLayer extPkt) \<le> Temporal (targetLayer v))
       \<and> (Temporal (currentLayer v) < Temporal (currentLayer v') \<longrightarrow>
            Temporal (currentLayer v') = Temporal (pktVideoLayer extPkt))
       \<and> (Temporal (currentLayer v') < Temporal (currentLayer v) \<longleftrightarrow>
            E vp9 \<and> Temporal (targetLayer v) < Temporal (currentLayer v))
       \<and> (Temporal (currentLayer v') < Temporal (currentLayer v) \<longrightarrow>
            Temporal (currentLayer v') = Temporal (targetLayer v))
       \<and> (Spatial (currentLayer v) < Spatial (currentLayer v') \<longleftrightarrow>
            \<not> P vp9 \<and> B vp9 \<and> Spatial (currentLayer v) < Spatial (pktVideoLayer extPkt)
              \<and> Spatial (pktVideoLayer extPkt) \<le> Spatial (targetLayer v))
       \<and> (Spatial (currentLayer v) < Spatial (currentLayer v') \<longrightarrow>
            Spatial (currentLayer v') = Spatial (pktVideoLayer extPkt))
       \<and> (Spatial (currentLayer v') < Spatial (currentLayer v) \<longleftrightarrow>
            E vp9 \<and> Spatial (targetLayer v) < Spatial (currentLayer v))
       \<and> (Spatial (currentLayer v') < Spatial (currentLayer v) \<longrightarrow>
            Spatial (currentLayer v') = Spatial (targetLayer v))"
proof -
  have c: "currentLayer v' =
           snd (vp9_spatial v extPkt vp9 (vp9_temporal v extPkt vp9 (currentLayer v, currentLayer v)))"
    using assms by (simp add: vp9_select_current)
  show ?thesis
    unfolding c by (auto simp add: vp9_spatial_def vp9_temporal_def split: if_splits)
qed

theorem vp9_select_transitions_witness:
  "Temporal (currentLayer (snd (VP9_Select vp9_example vp9_pkt1))) = 1
   \<and> Spatial (currentLayer (snd (VP9_Select vp9_example vp9_pkt1))) = 0
   \<and> Spatial (currentLayer (snd (VP9_Select
         (vp9_example\<lparr>currentLayer := \<lparr>Spatial = 0, Temporal = 1\<rparr>\<rparr>) vp9_pkt2))) = 1
   \<and> Temporal (currentLayer (snd (VP9_Select
         (vp9_example\<lparr>currentLayer := \<lparr>Spatial = 0, Temporal = 1\<rparr>\<rparr>) vp9_pkt2))) = 1"
proof -
  let ?v1 = "snd (VP9_Select vp9_example vp9_pkt1)"
  let ?w = "vp9_example\<lparr>currentLayer := \<lparr>Spatial = 0, Temporal = 1\<rparr>\<rparr>"
  let ?v2 = "snd (VP9_Select ?w vp9_pkt2)"
  have a: "pktPayload vp9_pkt1 = VP9Payload \<lparr>P = True, E = False, B = True, U = True\<rparr>"
    by (simp add: vp9_pkt1_def)
  have b: "IsValid (currentLayer vp9_example)"
    by (simp add: vp9_example_def IsValid_def InvalidLayerSpatial_def InvalidLayerTemporal_def)
  have c: "currentLayer vp9_example \<noteq> targetLayer vp9_example"
    by (simp add: vp9_example_def)
  have a2: "pktPayload vp9_pkt2 = VP9Payload \<lparr>P = False, E = False, B = True, U = False\<rparr>"
    by (simp add: vp9_pkt2_def)
  have b2: "IsValid (currentLayer ?w)"
    by (simp add: IsValid_def InvalidLayerSpatial_def InvalidLayerTemporal_def)
  have c2: "currentLayer ?w \<noteq> targetLayer ?w"
    by (simp add: vp9_example_def)
  from vp9_select_transitions [OF a b c refl] have
    "Temporal (currentLayer ?v1) = 1 \<and> Spatial (currentLayer ?v1) = 0"
    by (simp add: vp9_example_def vp9_pkt1_def)
  moreover from vp9_select_transitions [OF a2 b2 c2 refl] have
    "Spatial (currentLayer ?v2) = 1 \<and> Temporal (currentLayer ?v2) = 1"
    by (simp add: vp9_example_def vp9_pkt2_def)
  ultimately show ?thesis by simp
qed

section \<open>Adding and deleting down tracks\<close>

lemma keyed_update:
  "list_all (\<lambda>kv. SubscriberID (snd kv) = fst kv) al \<Longrightarrow>
   list_all (\<lambda>kv. SubscriberID (snd kv) = fst kv) (AList.update (SubscriberID ts) ts al)"
  by (induction al) (auto)

lemma keyed_delete:
  "list_all (\<lambda>kv. SubscriberID (snd kv) = fst kv) al \<Longrightarrow>
   list_all (\<lambda>kv. SubscriberID (snd kv) = fst kv) (AList.delete k al)"
  by (induction al) (auto)

lemma keyed_ids:
  "list_all (\<lambda>kv. SubscriberID (snd kv) = fst kv) al \<Longrightarrow> map (SubscriberID \<circ> snd) al = map fst al"
  by (induction al) auto

lemma spreader_inv_new: "spreader_inv NewDownTrackSpreader"
  by (simp add: spreader_inv_def NewDownTrackSpreader_def)

lemma spreader_inv_Store: "spreader_inv d \<Longrightarrow> spreader_inv (Store d ts)"
  by (simp add: spreader_inv_def Store_def shadowDownTracks_def distinct_update keyed_update)

lemma spreader_inv_Free: "spreader_inv d \<Longrightarrow> spreader_inv (Free d k)"
  by (simp add: spreader_inv_def Free_def shadowDownTracks_def distinct_delete keyed_delete)

lemma spreader_inv_distinct:
  "spreader_inv d \<Longrightarrow> distinct (map SubscriberID (downTracksShadow d))"
  by (simp add: spreader_inv_def keyed_ids)

lemma Store_map: "map_of (downTracks (Store d ts)) = (map_of (downTracks d))(SubscriberID ts \<mapsto> ts)"
  by (simp add: Store_def shadowDownTracks_def update_conv')

lemma Free_map: "map_of (downTracks (Free d k)) = (map_of (downTracks d))(k := None)"
  by (simp add: Free_def shadowDownTracks_def delete_conv')

lemma Store_shadow: "downTracksShadow (Store d ts) = map snd (downTracks (Store d ts))"
  by (simp add: Store_def shadowDownTracks_def)

text \<open>
  C9.  \<open>AddDownTrack\<close> returns the receiver-closed error exactly when the receiver is
  closed, and then changes nothing.  On an open receiver it returns no error; the spreader
  then maps the sender's subscriber to the new sender and every other subscriber as
  before, its shadow lists the senders of the map, and (given the spreader's invariant)
  holds at most one sender per subscriber; and the calls made are, in this order, the
  three notifications to the new sender (track info, the current \<open>maxPublishedLayer\<close>, the
  current \<open>maxTemporalLayerSeen\<close>) and then the store.  \<open>DeleteDownTrack\<close> yields only
  an updated receiver: it has no error result.
\<close>

theorem add_down_track_contract:
  "(fst (AddDownTrack w track) = Some ErrReceiverClosed \<longleftrightarrow> closed w)
   \<and> (closed w \<longrightarrow> snd (AddDownTrack w track) = w)
   \<and> (\<not> closed w \<longrightarrow>
        fst (AddDownTrack w track) = None
        \<and> map_of (downTracks (downTrackSpreader (snd (AddDownTrack w track))))
            = (map_of (downTracks (downTrackSpreader w)))(SubscriberID track \<mapsto> track)
        \<and> downTracksShadow (downTrackSpreader (snd (AddDownTrack w track)))
            = map snd (downTracks (downTrackSpreader (snd (AddDownTrack w track))))
        \<and> (spreader_inv (downTrackSpreader w) \<longrightarrow>
             spreader_inv (downTrackSpreader (snd (AddDownTrack w track)))
             \<and> distinct (map SubscriberID (downTracksShadow (downTrackSpreader (snd (AddDownTrack w track))))))
        \<and> events (snd (AddDownTrack w track)) = events w @
             [SenderCall track TrackInfoAvailable,
              SenderCall track (UpTrackMaxPublishedLayerChange (maxPublishedLayer (streamTrackerManager w))),
              SenderCall track (UpTrackMaxTemporalLayerSeenChange (maxTemporalLayerSeen (streamTrackerManager w))),
              SpreaderStore track])
   \<and> DeleteDownTrack w subscriberID =
        (if closed w then w
         else w\<lparr>downTrackSpreader := Free (downTrackSpreader w) subscriberID,
                events := events w @ [SpreaderFree subscriberID]\<rparr>)"
proof -
  have inv: "spreader_inv (downTrackSpreader w) \<Longrightarrow>
      distinct (map SubscriberID (downTracksShadow (Store (downTrackSpreader w) track)))"
    by (intro spreader_inv_distinct spreader_inv_Store)
  show ?thesis
    using inv
    by (simp add: AddDownTrack_def DeleteDownTrack_def Let_def Store_map Store_shadow
        spreader_inv_Store del: map_map)
qed

theorem add_down_track_contract_witness:
  "fst (AddDownTrack receiver_example sender_example) = None
   \<and> downTracksShadow (downTrackSpreader (snd (AddDownTrack receiver_example sender_example)))
       = [sender_example]
   \<and> events (snd (AddDownTrack receiver_example sender_example))
       = [SenderCall sender_example TrackInfoAvailable,
          SenderCall sender_example (UpTrackMaxPublishedLayerChange 1),
          SenderCall sender_example (UpTrackMaxTemporalLayerSeenChange 0),
          SpreaderStore sender_example]
   \<and> fst (AddDownTrack (receiver_example\<lparr>closed := True\<rparr>) sender_example) = Some ErrReceiverClosed
   \<and> downTracksShadow (downTrackSpreader (DeleteDownTrack receiver_example ''alice'')) = []"
  using add_down_track_contract [of receiver_example sender_example "''alice''"]
        add_down_track_contract [of "receiver_example\<lparr>closed := True\<rparr>" sender_example "''alice''"]
  by (simp add: receiver_example_def sender_example_def sr_example_def spreader_inv_def
        AddDownTrack_def Store_def Free_def shadowDownTracks_def Let_def)

section \<open>Properties of the RED encoder\<close>

lemma and_16383: "(x :: 32 word) AND 16383 = take_bit 14 x"
proof -
  have "(16383 :: 32 word) = mask 14" by (simp add: mask_eq_exp_minus_1)
  thus ?thesis by (simp add: take_bit_eq_mask)
qed

lemma and_1023: "(x :: 32 word) AND 1023 = take_bit 10 x"
proof -
  have "(1023 :: 32 word) = mask 10" by (simp add: mask_eq_exp_minus_1)
  thus ?thesis by (simp add: take_bit_eq_mask)
qed

lemma hdr_const: "push_bit 24 (ucast (128 OR opusPT) :: 32 word) = push_bit 31 1 OR push_bit 24 (ucast opusPT)"
  by (simp add: opusPT_def)

lemma red_header_layout: "red_header primary p = spec_header_block primary p"
proof -
  let ?t = "take_bit 14 (Timestamp primary - Timestamp p)"
  let ?l = "take_bit 10 (of_nat (length (Payload p)) :: 32 word)"
  have "red_header primary p = push_bit 10 (push_bit 14 (ucast (128 OR opusPT) :: 32 word) OR ?t) OR ?l"
    by (simp only: red_header_def Let_def and_16383 and_1023)
  also have "\<dots> = (push_bit 24 (ucast (128 OR opusPT) :: 32 word) OR push_bit 10 ?t) OR ?l"
    by (simp add: push_bit_or push_bit_push_bit del: push_bit_of_1)
  also have "\<dots> = ((push_bit 31 1 OR push_bit 24 (ucast opusPT)) OR push_bit 10 ?t) OR ?l"
    by (simp only: hdr_const)
  also have "\<dots> = spec_header_block primary p"
    by (simp only: spec_header_block_def or.assoc)
  finally show ?thesis .
qed

lemma opusPT_bits:
  assumes "bit opusPT n"
  shows "n < 7"
proof -
  have e: "take_bit 7 opusPT = opusPT" by (simp add: opusPT_def)
  from assms have "bit (take_bit 7 opusPT) n" by (simp only: e)
  thus ?thesis by (simp only: bit_take_bit_iff)
qed

lemma header_F: "drop_bit 31 (spec_header_block primary p) = 1"
  unfolding spec_header_block_def
  by (rule bit_word_eqI) (auto simp add: bit_simps dest: opusPT_bits)

lemma header_PT: "take_bit 7 (drop_bit 24 (spec_header_block primary p)) = ucast opusPT"
  unfolding spec_header_block_def
  by (rule bit_word_eqI) (auto simp add: bit_simps dest: opusPT_bits)

lemma header_TS: "take_bit 14 (drop_bit 10 (spec_header_block primary p)) = take_bit 14 (Timestamp primary - Timestamp p)"
  unfolding spec_header_block_def
  by (rule bit_word_eqI) (auto simp add: bit_simps dest: opusPT_bits)

lemma header_LEN: "take_bit 10 (spec_header_block primary p) = take_bit 10 (of_nat (length (Payload p)))"
  unfolding spec_header_block_def
  by (rule bit_word_eqI) (auto simp add: bit_simps dest: opusPT_bits)

lemma length_PutUint32: "length (PutUint32 v) = 4"
  by (simp add: PutUint32_def)

lemma length_write_at: "index + length bs \<le> length buf \<Longrightarrow> length (write_at buf index bs) = length buf"
  by (simp add: write_at_def)

lemma take_write_at:
  "index + length bs \<le> length buf \<Longrightarrow> take (index + length bs) (write_at buf index bs) = take index buf @ bs"
  by (simp add: write_at_def)

lemma put_headers_ok:
  "index + 4 * length ps \<le> length buf \<Longrightarrow>
   \<exists>buf'. put_headers primary ps buf index = Inr (buf', index + 4 * length ps)
          \<and> length buf' = length buf
          \<and> take (index + 4 * length ps) buf' =
              take index buf @ concat (map (\<lambda>p. PutUint32 (red_header primary p)) ps)"
proof (induction ps arbitrary: buf index)
  case Nil
  thus ?case by simp
next
  case (Cons p ps)
  let ?b = "write_at buf index (PutUint32 (red_header primary p))"
  have fit: "index + 4 \<le> length buf" using Cons.prems by simp
  have len: "length ?b = length buf" using fit by (simp add: length_write_at length_PutUint32)
  have pre: "take (index + 4) ?b = take index buf @ PutUint32 (red_header primary p)"
    using take_write_at [of index "PutUint32 (red_header primary p)" buf] fit
    by (simp add: length_PutUint32)
  have "(index + 4) + 4 * length ps \<le> length ?b" using Cons.prems len by simp
  from Cons.IH [OF this] obtain buf' where
    r: "put_headers primary ps ?b (index + 4) = Inr (buf', index + 4 + 4 * length ps)"
    and l: "length buf' = length ?b"
    and t: "take (index + 4 + 4 * length ps) buf' =
              take (index + 4) ?b @ concat (map (\<lambda>p. PutUint32 (red_header primary p)) ps)"
    by blast
  have "put_headers primary (p # ps) buf index = Inr (buf', index + 4 * length (p # ps))"
    using r fit by (simp add: add.assoc)
  moreover have "length buf' = length buf" using l len by simp
  moreover have "take (index + 4 * length (p # ps)) buf' =
      take index buf @ concat (map (\<lambda>p. PutUint32 (red_header primary p)) (p # ps))"
    using t pre by (simp add: add.assoc)
  ultimately show ?case by blast
qed

lemma put_blocks_ok:
  "index + sum_list (map (\<lambda>p. length (Payload p)) ps) \<le> length buf \<Longrightarrow>
   \<exists>buf'. put_blocks ps buf index = Inr (buf', index + sum_list (map (\<lambda>p. length (Payload p)) ps))
          \<and> length buf' = length buf
          \<and> take (index + sum_list (map (\<lambda>p. length (Payload p)) ps)) buf' =
              take index buf @ concat (map Payload ps)"
proof (induction ps arbitrary: buf index)
  case Nil
  thus ?case by simp
next
  case (Cons p ps)
  let ?n = "length (Payload p)"
  let ?s = "sum_list (map (\<lambda>p. length (Payload p)) ps)"
  let ?b = "write_at buf index (Payload p)"
  have fit: "index + ?n \<le> length buf" using Cons.prems by simp
  have len: "length ?b = length buf" using fit by (simp add: length_write_at)
  have pre: "take (index + ?n) ?b = take index buf @ Payload p"
    using fit by (rule take_write_at)
  have "(index + ?n) + ?s \<le> length ?b" using Cons.prems len by simp
  from Cons.IH [OF this] obtain buf' where
    r: "put_blocks ps ?b (index + ?n) = Inr (buf', index + ?n + ?s)"
    and l: "length buf' = length ?b"
    and t: "take (index + ?n + ?s) buf' = take (index + ?n) ?b @ concat (map Payload ps)"
    by blast
  have "put_blocks (p # ps) buf index = Inr (buf', index + sum_list (map (\<lambda>p. length (Payload p)) (p # ps)))"
    using r fit by (simp add: add.assoc)
  moreover have "length buf' = length buf" using l len by simp
  moreover have "take (index + sum_list (map (\<lambda>p. length (Payload p)) (p # ps))) buf' =
      take index buf @ concat (map Payload (p # ps))"
    using t pre by (simp add: add.assoc)
  ultimately show ?case by blast
qed

lemma put_blocks_short:
  "index \<le> length buf \<Longrightarrow> length buf < index + length (Payload p) \<Longrightarrow>
   put_blocks (p # ps) buf index = Inl (ErrNotEnoughSpace (length (Payload p)))"
proof -
  assume "index \<le> length buf" and "length buf < index + length (Payload p)"
  hence "\<not> length buf < index" and "length buf - index < length (Payload p)" by linarith+
  thus ?thesis by simp
qed

lemma fold_payloadSize:
  "fold (\<lambda>p n. n + (length (Payload p) + 4)) ps a = a + sum_list (map (\<lambda>p. length (Payload p) + 4) ps)"
  by (induction ps arbitrary: a) simp_all

lemma red_payloadSize_eq:
  "red_payloadSize redPkts primary =
     length (Payload primary) + 1 + sum_list (map (\<lambda>p. length (Payload p) + 4) redPkts)"
  by (simp add: red_payloadSize_def fold_payloadSize)

lemma sum_plus4:
  "sum_list (map (\<lambda>p. length (Payload p) + 4) ps) = sum_list (map (\<lambda>p. length (Payload p)) ps) + 4 * length ps"
  by (induction ps) simp_all

lemma length_red_layout:
  "length (red_layout primary blocks) =
     4 * length blocks + 1 + sum_list (map (\<lambda>p. length (Payload p)) blocks) + length (Payload primary)"
  by (induction blocks) (simp_all add: red_layout_def length_PutUint32)

lemma encode_fits:
  assumes fit: "length (Payload primary) + 1 + sum_list (map (\<lambda>p. length (Payload p) + 4) blocks) \<le> length redPayload"
  shows "\<exists>buf. (case put_headers primary blocks redPayload 0 of
           Inl e \<Rightarrow> Inl e
         | Inr (buf1, index1) \<Rightarrow>
             (if length buf1 \<le> index1 then Inl PanicIndexOutOfRange
              else (case put_blocks (blocks @ [primary]) (buf1[index1 := opusPT]) (index1 + 1) of
                      Inl e \<Rightarrow> Inl e
                    | Inr (buf2, index2) \<Rightarrow> Inr (index2, buf2))))
          = Inr (length (red_layout primary blocks), buf)
        \<and> take (length (red_layout primary blocks)) buf = red_layout primary blocks"
proof -
  let ?k = "4 * length blocks"
  let ?s = "sum_list (map (\<lambda>p. length (Payload p)) (blocks @ [primary]))"
  have tot: "?k + 1 + ?s \<le> length redPayload" using fit by (simp add: sum_plus4)
  hence "0 + ?k \<le> length redPayload" by simp
  from put_headers_ok [OF this, of primary] obtain buf1 where
    h: "put_headers primary blocks redPayload 0 = Inr (buf1, ?k)"
    and l1: "length buf1 = length redPayload"
    and t1: "take ?k buf1 = concat (map (\<lambda>p. PutUint32 (red_header primary p)) blocks)"
    by auto
  let ?b = "buf1[?k := opusPT]"
  have lt: "?k < length buf1" using tot l1 by simp
  have t2: "take (?k + 1) ?b = take ?k buf1 @ [opusPT]"
    using lt by (simp add: take_Suc_conv_app_nth)
  have "(?k + 1) + ?s \<le> length ?b" using tot l1 by simp
  from put_blocks_ok [OF this] obtain buf2 where
    b: "put_blocks (blocks @ [primary]) ?b (?k + 1) = Inr (buf2, ?k + 1 + ?s)"
    and t3: "take (?k + 1 + ?s) buf2 = take (?k + 1) ?b @ concat (map Payload (blocks @ [primary]))"
    by blast
  have n: "?k + 1 + ?s = length (red_layout primary blocks)"
    by (simp add: length_red_layout)
  have "take (?k + 1 + ?s) buf2 = red_layout primary blocks"
    using t3 t2 t1 by (simp add: red_layout_def red_header_layout)
  thus ?thesis using h b lt n by (intro exI [of _ buf2]) (simp del: put_blocks.simps put_headers.simps)
qed

lemma encode_static:
  assumes cap: "1 \<le> length redPayload"
  shows "red_emitted (encodeRedForPrimary redPkts primary redPayload) =
     (if length (Payload primary) < length redPayload
      then Some (red_layout primary
             (if length redPayload < length (Payload primary) + 1 + sum_list (map (\<lambda>p. length (Payload p) + 4) redPkts)
              then [] else redPkts))
      else None)"
proof (cases "length redPayload < length (Payload primary) + 1 + sum_list (map (\<lambda>p. length (Payload p) + 4) redPkts)")
  case False
  hence fit: "length (Payload primary) + 1 + sum_list (map (\<lambda>p. length (Payload p) + 4) redPkts) \<le> length redPayload"
    by simp
  hence small: "length (Payload primary) < length redPayload" by simp
  from encode_fits [OF fit] obtain buf where
    "encodeRedForPrimary redPkts primary redPayload = Inr (length (red_layout primary redPkts), buf)"
    and "take (length (red_layout primary redPkts)) buf = red_layout primary redPkts"
    using False by (auto simp add: encodeRedForPrimary_def red_payloadSize_eq Let_def)
  thus ?thesis using False small by (simp add: red_emitted_def)
next
  case True
  have ne: "redPayload \<noteq> []" using cap by auto
  have drop: "encodeRedForPrimary redPkts primary redPayload =
      (case put_blocks [primary] (redPayload[0 := opusPT]) 1 of
         Inl e \<Rightarrow> Inl e | Inr (buf2, index2) \<Rightarrow> Inr (index2, buf2))"
  proof -
    show ?thesis
      using True ne by (simp add: encodeRedForPrimary_def red_payloadSize_eq Let_def del: put_blocks.simps)
  qed
  show ?thesis
  proof (cases "length (Payload primary) < length redPayload")
    case small: True
    hence "length (Payload primary) + 1 + sum_list (map (\<lambda>p. length (Payload p) + 4) []) \<le> length redPayload"
      by simp
    from encode_fits [OF this] have
      "\<exists>buf. (case put_blocks [primary] (redPayload[0 := opusPT]) 1 of
         Inl e \<Rightarrow> Inl e | Inr (buf2, index2) \<Rightarrow> Inr (index2, buf2)) = Inr (length (red_layout primary []), buf)
        \<and> take (length (red_layout primary [])) buf = red_layout primary []"
      using ne by (simp del: put_blocks.simps)
    then obtain buf where
      "(case put_blocks [primary] (redPayload[0 := opusPT]) 1 of
         Inl e \<Rightarrow> Inl e | Inr (buf2, index2) \<Rightarrow> Inr (index2, buf2)) = Inr (length (red_layout primary []), buf)"
      and "take (length (red_layout primary [])) buf = red_layout primary []"
      by blast
    thus ?thesis using True small drop by (simp add: red_emitted_def del: put_blocks.simps)
  next
    case big: False
    have "put_blocks [primary] (redPayload[0 := opusPT]) 1 = Inl (ErrNotEnoughSpace (length (Payload primary)))"
      using cap big by (intro put_blocks_short) simp_all
    thus ?thesis using big drop by (simp add: red_emitted_def del: put_blocks.simps)
  qed
qed

lemma encode_no_space:
  assumes cap: "1 \<le> length redPayload" and big: "length redPayload \<le> length (Payload primary)"
  shows "encodeRedForPrimary redPkts primary redPayload = Inl (ErrNotEnoughSpace (length (Payload primary)))"
proof -
  have ne: "redPayload \<noteq> []" using cap by auto
  have over: "length redPayload < length (Payload primary) + 1 + sum_list (map (\<lambda>p. length (Payload p) + 4) redPkts)"
    using big by simp
  have drop: "encodeRedForPrimary redPkts primary redPayload =
      (case put_blocks [primary] (redPayload[0 := opusPT]) 1 of
         Inl e \<Rightarrow> Inl e | Inr (buf2, index2) \<Rightarrow> Inr (index2, buf2))"
    using over ne by (simp add: encodeRedForPrimary_def red_payloadSize_eq Let_def del: put_blocks.simps)
  have "put_blocks [primary] (redPayload[0 := opusPT]) 1 = Inl (ErrNotEnoughSpace (length (Payload primary)))"
    using cap big by (intro put_blocks_short) simp_all
  thus ?thesis using drop by (simp del: put_blocks.simps)
qed

lemma lastNil_suffix:
  "n \<le> length buf \<Longrightarrow> nat (lastNilPkt_from buf n + 1) \<le> j \<Longrightarrow> j < n \<Longrightarrow> buf ! j \<noteq> None"
proof (induction n)
  case 0
  thus ?case by simp
next
  case (Suc i)
  show ?case
  proof (cases "buf ! i = None")
    case True
    thus ?thesis using Suc.prems by simp
  next
    case False
    show ?thesis
    proof (cases "j = i")
      case True
      thus ?thesis using False by simp
    next
      case ne: False
      hence "j < i" using Suc.prems by simp
      moreover have "nat (lastNilPkt_from buf i + 1) \<le> j" using Suc.prems False by simp
      moreover have "i \<le> length buf" using Suc.prems by simp
      ultimately show ?thesis using Suc.IH by blast
    qed
  qed
qed

lemma red_history_some: "x \<in> set (red_history r) \<Longrightarrow> x \<noteq> None"
proof -
  let ?buf = "pktBuff r"
  let ?k = "nat (lastNilPkt_from ?buf (length ?buf) + 1)"
  assume "x \<in> set (red_history r)"
  then obtain i where i: "i < length (drop ?k ?buf)" and x: "x = drop ?k ?buf ! i"
    by (auto simp add: red_history_def in_set_conv_nth)
  have "?k + i < length ?buf" using i by simp
  moreover have "?k \<le> ?k + i" by simp
  ultimately have "?buf ! (?k + i) \<noteq> None"
    using lastNil_suffix [of "length ?buf" ?buf "?k + i"] by simp
  thus ?thesis using x i by simp
qed

lemma collect_all_some:
  "(\<And>x. x \<in> set xs \<Longrightarrow> x \<noteq> None) \<Longrightarrow>
   collect_redPkts pkt n xs = Inr (filter (\<lambda>prev. \<not> red_skip pkt prev n) [p. Some p \<leftarrow> xs])"
proof (induction xs)
  case Nil
  show ?case by simp
next
  case (Cons x xs)
  from Cons.prems obtain p where x: "x = Some p" by (cases x) auto
  have "collect_redPkts pkt n xs = Inr (filter (\<lambda>prev. \<not> red_skip pkt prev n) [p. Some p \<leftarrow> xs])"
    using Cons.IH Cons.prems by simp
  thus ?case using x by simp
qed

lemma red_skip_eligible: "(\<not> red_skip pkt prev 2) = red_eligible pkt prev"
  by (auto simp add: red_skip_def red_eligible_def not_less not_le)

lemma method_emitted:
  assumes "length redPayload = mtuSize" and "length (pktBuff r) = maxRedCount"
  shows "red_emitted (fst (RedReceiver_encodeRedForPrimary r pkt redPayload)) =
           (if length (Payload pkt) < mtuSize then Some (red_layout pkt (red_attached r pkt)) else None)"
proof -
  have c: "collect_redPkts pkt 2 (red_history r) = Inr (filter (red_eligible pkt) (history_packets r))"
    using collect_all_some [of "red_history r" pkt 2] red_history_some [of _ r]
    by (simp add: red_skip_eligible history_packets_def)
  have cap: "1 \<le> length redPayload" using assms(1) by (simp add: mtuSize_def)
  show ?thesis
    using assms c encode_static [OF cap, of "filter (red_eligible pkt) (history_packets r)" pkt]
    by (simp add: RedReceiver_encodeRedForPrimary_def maxRedCount_def red_attached_def Let_def)
qed

lemma history_packets_length: "length (history_packets r) \<le> length (pktBuff r)"
proof -
  have "length [p. Some p \<leftarrow> xs] \<le> length xs" for xs :: "rtp_Packet option list"
    by (induction xs) (auto split: option.splits)
  from this [of "red_history r"] show ?thesis
    by (simp add: history_packets_def red_history_def)
qed

lemma history_packets_set: "p \<in> set (history_packets r) \<Longrightarrow> Some p \<in> set (pktBuff r)"
proof -
  have "p \<in> set [p. Some p \<leftarrow> xs] \<Longrightarrow> Some p \<in> set xs" for xs :: "rtp_Packet option list"
    by (induction xs) (auto split: option.splits)
  from this [of "red_history r"] show "p \<in> set (history_packets r) \<Longrightarrow> Some p \<in> set (pktBuff r)"
    by (auto simp add: history_packets_def red_history_def dest: in_set_dropD)
qed

text \<open>
  The history only ever holds packets that were passed to the encoder: after a call, each
  of its packets was there before or is the packet of the call.
\<close>

lemma age_out_props:
  "i < length buf \<Longrightarrow> length (age_out buf i) = length buf \<and> set (age_out buf i) \<subseteq> set buf"
proof (induction i)
  case 0
  show ?case by (simp add: age_out_def)
next
  case (Suc i)
  let ?b = "age_out buf i"
  have ih: "length ?b = length buf" "set ?b \<subseteq> set buf" using Suc by simp_all
  have step: "age_out buf (Suc i) = ?b[i := ?b ! (i + 1)]" by (simp add: age_out_def)
  have "?b ! (i + 1) \<in> set ?b" using Suc.prems ih(1) by (intro nth_mem) simp
  hence "set (?b[i := ?b ! (i + 1)]) \<subseteq> set ?b"
    using set_update_subset_insert [of ?b i "?b ! (i + 1)"] by auto
  thus ?case using ih step by auto
qed

lemma insert_pkt_props:
  "n \<le> length buf \<Longrightarrow>
   length (insert_pkt pkt buf n) = length buf
   \<and> set (insert_pkt pkt buf n) \<subseteq> insert (Some pkt) (set buf)"
proof (induction n)
  case 0
  show ?case by auto
next
  case (Suc i)
  have i: "i < length buf" using Suc.prems by simp
  show ?case
  proof (cases "case buf ! i of None \<Rightarrow> True | Some h \<Rightarrow> SequenceNumber pkt - SequenceNumber h < 2 ^ 15")
    case True
    have "set ((age_out buf i)[i := Some pkt]) \<subseteq> insert (Some pkt) (set (age_out buf i))"
      by (rule set_update_subset_insert)
    thus ?thesis using True age_out_props [OF i] by auto
  next
    case False
    thus ?thesis using Suc.IH i by simp
  qed
qed

lemma history_after_encode:
  assumes "Some p \<in> set (pktBuff (snd (RedReceiver_encodeRedForPrimary r pkt redPayload)))"
  shows "Some p \<in> set (pktBuff r) \<or> p = pkt"
proof -
  have "set (insert_pkt pkt (pktBuff r) (length (pktBuff r))) \<subseteq> insert (Some pkt) (set (pktBuff r))"
    using insert_pkt_props [of "length (pktBuff r)" "pktBuff r" pkt] by simp
  thus ?thesis using assms
    by (auto simp add: RedReceiver_encodeRedForPrimary_def Let_def split: sum.splits)
qed

text \<open>
  C2, as amended.  For a buffer of \<open>mtuSize\<close> bytes and a history of \<open>maxRedCount\<close>
  slots, the emitted payload (one is emitted when the primary payload is shorter than the
  buffer) is laid out from the primary packet and the attached redundancy, and the
  attached redundancy is: the packets held in the history whose sequence number is one or
  two behind the current packet's and whose timestamp is less than 16384 units behind the
  current packet's, in history order, unless the payload size they need exceeds the
  buffer, in which case none is attached.  At most two are attached.
\<close>

theorem red_redundancy_selection:
  assumes "length redPayload = mtuSize" and "length (pktBuff r) = maxRedCount"
  shows "red_emitted (fst (RedReceiver_encodeRedForPrimary r pkt redPayload)) =
           (if length (Payload pkt) < mtuSize then Some (red_layout pkt (red_attached r pkt)) else None)
       \<and> red_attached r pkt =
           (if mtuSize < length (Payload pkt) + 1
                 + sum_list (map (\<lambda>p. length (Payload p) + 4) (filter (red_eligible pkt) (history_packets r)))
            then [] else filter (red_eligible pkt) (history_packets r))
       \<and> (\<forall>p \<in> set (history_packets r). Some p \<in> set (pktBuff r))
       \<and> (\<forall>p. red_eligible pkt p \<longleftrightarrow>
              SequenceNumber pkt \<noteq> SequenceNumber p
              \<and> SequenceNumber pkt - SequenceNumber p \<le> 2
              \<and> Timestamp pkt - Timestamp p < 16384)
       \<and> length (red_attached r pkt) \<le> 2"
proof -
  have "length (filter (red_eligible pkt) (history_packets r)) \<le> length (history_packets r)"
    by simp
  moreover have "length (history_packets r) \<le> 2"
    using history_packets_length [of r] assms(2) by (simp add: maxRedCount_def)
  ultimately have "length (filter (red_eligible pkt) (history_packets r)) \<le> 2"
    by (rule order_trans)
  hence "length (red_attached r pkt) \<le> 2" by (simp add: red_attached_def Let_def)
  thus ?thesis
    using method_emitted [OF assms, of pkt] history_packets_set [of _ r]
    by (simp add: red_attached_def Let_def red_eligible_def)
qed

theorem red_redundancy_selection_witness:
  "red_emitted (fst (RedReceiver_encodeRedForPrimary red_example red_example_next (replicate mtuSize 0)))
     = Some [239, 15, 0, 2, 239, 7, 128, 1, 111, 1, 2, 3, 4, 5]
   \<and> red_emitted (fst (RedReceiver_encodeRedForPrimary red_example red_example_jump (replicate mtuSize 0)))
     = Some [111, 6]"
  using red_redundancy_selection [of "replicate mtuSize 0" red_example red_example_next]
        red_redundancy_selection [of "replicate mtuSize 0" red_example red_example_jump]
  by (simp add: red_example_def red_example_next_def red_example_jump_def maxRedCount_def mtuSize_def
        history_packets_def red_history_def red_layout_def spec_header_block_def PutUint32_def opusPT_def)

text \<open>
  The claim as stated fails: packet 106 is within 16 sequence numbers and within 16384
  timestamp units of packets 100 and 101 of the history, yet the emitted payload is the
  final header byte and the primary payload alone.
\<close>

theorem red_redundancy_selection_counterexample:
  "filter (spec_red_eligible red_example_jump) (history_packets red_example) =
     [\<lparr>SequenceNumber = 100, Timestamp = 1000, Payload = [1, 2]\<rparr>,
      \<lparr>SequenceNumber = 101, Timestamp = 1480, Payload = [3]\<rparr>]
   \<and> red_emitted (fst (RedReceiver_encodeRedForPrimary red_example red_example_jump (replicate mtuSize 0)))
     = Some [111, 6]"
proof -
  have "length (replicate mtuSize (0 :: byte)) = mtuSize" by simp
  moreover have "length (pktBuff red_example) = maxRedCount" by (simp add: red_example_def maxRedCount_def)
  ultimately have "red_emitted (fst (RedReceiver_encodeRedForPrimary red_example red_example_jump (replicate mtuSize 0)))
      = (if length (Payload red_example_jump) < mtuSize
         then Some (red_layout red_example_jump (red_attached red_example red_example_jump)) else None)"
    by (rule method_emitted)
  thus ?thesis
    by (simp add: red_example_def red_example_jump_def mtuSize_def red_attached_def red_eligible_def
        spec_red_eligible_def history_packets_def red_history_def red_layout_def opusPT_def)
qed

lemma eligible_count:
  assumes "length (pktBuff r) = maxRedCount"
  shows "length (filter (red_eligible pkt) (history_packets r)) \<le> 2"
proof -
  have "length (filter (red_eligible pkt) (history_packets r)) \<le> length (history_packets r)"
    by simp
  moreover have "length (history_packets r) \<le> 2"
    using history_packets_length [of r] assms by (simp add: maxRedCount_def)
  ultimately show ?thesis by (rule order_trans)
qed

lemma collect_history:
  "collect_redPkts pkt 2 (red_history r) = Inr (filter (red_eligible pkt) (history_packets r))"
  using collect_all_some [of "red_history r" pkt 2] red_history_some [of _ r]
  by (simp add: red_skip_eligible history_packets_def)

text \<open>
  C5, as amended.  Let \<open>redPkts\<close> be the redundancy the method collects and
  \<open>payloadSize\<close> the size it needs: the primary length, one byte, and for each
  redundancy packet its length and four bytes.  If that exceeds \<open>mtuSize\<close>, no
  redundancy is attached: when the primary payload is shorter than \<open>mtuSize\<close> the
  emitted payload is exactly the one-byte header followed by the primary payload, and
  when the primary payload is \<open>mtuSize\<close> bytes or more the encoder returns its
  not-enough-space error and nothing is emitted.  Otherwise a payload is emitted and its
  length is \<open>4k + 1\<close> plus the \<open>k\<close> redundancy lengths plus the primary length, with
  \<open>k \<le> 2\<close>.
\<close>

theorem red_payload_size:
  assumes buf: "length redPayload = mtuSize" and hist: "length (pktBuff r) = maxRedCount"
    and coll: "collect_redPkts pkt (length (pktBuff r)) (red_history r) = Inr redPkts"
    and size: "payloadSize = length (Payload pkt) + 1 + sum_list (map (\<lambda>p. length (Payload p) + 4) redPkts)"
    and emitted: "emitted = red_emitted (fst (RedReceiver_encodeRedForPrimary r pkt redPayload))"
  shows "(mtuSize < payloadSize \<longrightarrow>
            (length (Payload pkt) < mtuSize \<longrightarrow> emitted = Some (opusPT # Payload pkt))
            \<and> (mtuSize \<le> length (Payload pkt) \<longrightarrow>
                 fst (RedReceiver_encodeRedForPrimary r pkt redPayload)
                   = Inl (ErrNotEnoughSpace (length (Payload pkt)))
                 \<and> emitted = None))
       \<and> (payloadSize \<le> mtuSize \<longrightarrow>
            (\<exists>payload. emitted = Some payload
               \<and> length payload = 4 * length redPkts + 1
                    + sum_list (map (\<lambda>p. length (Payload p)) redPkts) + length (Payload pkt))
            \<and> length redPkts \<le> 2)"
proof -
  have cap: "1 \<le> length redPayload" using buf by (simp add: mtuSize_def)
  have e: "emitted =
     (if length (Payload pkt) < mtuSize
      then Some (red_layout pkt (if mtuSize < payloadSize then [] else redPkts))
      else None)"
    using encode_static [OF cap, of redPkts pkt] coll buf
    by (simp add: emitted size RedReceiver_encodeRedForPrimary_def Let_def)
  have res: "fst (RedReceiver_encodeRedForPrimary r pkt redPayload) = encodeRedForPrimary redPkts pkt redPayload"
    using coll by (simp add: RedReceiver_encodeRedForPrimary_def Let_def)
  have "redPkts = filter (red_eligible pkt) (history_packets r)"
    using coll collect_history [of pkt r] hist by (simp add: maxRedCount_def)
  hence k: "length redPkts \<le> 2" using eligible_count [OF hist, of pkt] by simp
  have small: "payloadSize \<le> mtuSize \<Longrightarrow> length (Payload pkt) < mtuSize" using size by simp
  show ?thesis
  proof (intro conjI impI)
    assume "mtuSize < payloadSize" and "length (Payload pkt) < mtuSize"
    thus "emitted = Some (opusPT # Payload pkt)"
      using e by (simp add: red_layout_def)
  next
    assume "mtuSize \<le> length (Payload pkt)"
    hence "length redPayload \<le> length (Payload pkt)" using buf by simp
    from encode_no_space [OF cap this, of redPkts]
    show "fst (RedReceiver_encodeRedForPrimary r pkt redPayload) = Inl (ErrNotEnoughSpace (length (Payload pkt)))"
      by (simp only: res)
  next
    assume "mtuSize \<le> length (Payload pkt)"
    thus "emitted = None" using e by simp
  next
    assume "payloadSize \<le> mtuSize"
    hence "emitted = Some (red_layout pkt redPkts)" using e small by simp
    thus "\<exists>payload. emitted = Some payload
               \<and> length payload = 4 * length redPkts + 1
                    + sum_list (map (\<lambda>p. length (Payload p)) redPkts) + length (Payload pkt)"
      by (simp add: length_red_layout)
  next
    show "length redPkts \<le> 2" by (rule k)
  qed
qed

theorem red_payload_size_witness:
  "(\<exists>payload. red_emitted (fst (RedReceiver_encodeRedForPrimary red_example red_example_next
                   (replicate mtuSize 0))) = Some payload \<and> length payload = 14)
   \<and> red_emitted (fst (RedReceiver_encodeRedForPrimary red_example red_example_big (replicate mtuSize 0)))
       = Some (opusPT # Payload red_example_big)"
proof -
  let ?h = "[\<lparr>SequenceNumber = 100, Timestamp = 1000, Payload = [1, 2]\<rparr>,
             \<lparr>SequenceNumber = 101, Timestamp = 1480, Payload = [3 :: byte]\<rparr>]"
  have b: "length (replicate mtuSize (0 :: byte)) = mtuSize" by simp
  have h: "length (pktBuff red_example) = maxRedCount"
    by (simp add: red_example_def maxRedCount_def)
  have c1: "collect_redPkts red_example_next (length (pktBuff red_example)) (red_history red_example) = Inr ?h"
    by (simp add: red_example_def red_example_next_def red_history_def red_skip_def)
  have c2: "collect_redPkts red_example_big (length (pktBuff red_example)) (red_history red_example) = Inr ?h"
    by (simp add: red_example_def red_example_big_def red_history_def red_skip_def)
  from red_payload_size [OF b h c1 refl refl]
  have "\<exists>payload. red_emitted (fst (RedReceiver_encodeRedForPrimary red_example red_example_next
                   (replicate mtuSize 0))) = Some payload \<and> length payload = 14"
    by (simp add: red_example_next_def mtuSize_def)
  moreover from red_payload_size [OF b h c2 refl refl]
  have "red_emitted (fst (RedReceiver_encodeRedForPrimary red_example red_example_big (replicate mtuSize 0)))
       = Some (opusPT # Payload red_example_big)"
    by (auto simp add: red_example_big_def mtuSize_def)
  ultimately show ?thesis by simp
qed

text \<open>
  The claim as stated fails: for packet 102 with a payload of 1500 bytes the required
  size, 1512, exceeds the buffer, and the encoder returns its error; no payload is
  emitted, where the claim has the header byte followed by the primary payload.
\<close>

theorem red_payload_size_counterexample:
  "collect_redPkts red_example_full (length (pktBuff red_example)) (red_history red_example) =
     Inr [\<lparr>SequenceNumber = 100, Timestamp = 1000, Payload = [1, 2]\<rparr>,
          \<lparr>SequenceNumber = 101, Timestamp = 1480, Payload = [3]\<rparr>]
   \<and> red_payloadSize [\<lparr>SequenceNumber = 100, Timestamp = 1000, Payload = [1, 2]\<rparr>,
                       \<lparr>SequenceNumber = 101, Timestamp = 1480, Payload = [3]\<rparr>] red_example_full = 1512
   \<and> fst (RedReceiver_encodeRedForPrimary red_example red_example_full (replicate mtuSize 0))
       = Inl (ErrNotEnoughSpace 1500)
   \<and> red_emitted (fst (RedReceiver_encodeRedForPrimary red_example red_example_full (replicate mtuSize 0)))
       = None"
proof -
  let ?h = "[\<lparr>SequenceNumber = 100, Timestamp = 1000, Payload = [1, 2]\<rparr>,
             \<lparr>SequenceNumber = 101, Timestamp = 1480, Payload = [3 :: byte]\<rparr>]"
  have c: "collect_redPkts red_example_full (length (pktBuff red_example)) (red_history red_example) = Inr ?h"
    by (simp add: red_example_def red_example_full_def red_history_def red_skip_def)
  have s: "red_payloadSize ?h red_example_full = 1512"
    by (simp add: red_payloadSize_def red_example_full_def)
  have "encodeRedForPrimary ?h red_example_full (replicate mtuSize 0)
          = Inl (ErrNotEnoughSpace (length (Payload red_example_full)))"
    by (rule encode_no_space) (simp_all add: mtuSize_def red_example_full_def)
  hence "encodeRedForPrimary ?h red_example_full (replicate mtuSize 0) = Inl (ErrNotEnoughSpace 1500)"
    by (simp add: red_example_full_def)
  hence r: "fst (RedReceiver_encodeRedForPrimary red_example red_example_full (replicate mtuSize 0))
       = Inl (ErrNotEnoughSpace 1500)"
    using c by (simp add: RedReceiver_encodeRedForPrimary_def Let_def)
  show ?thesis using c s r by (simp add: red_emitted_def)
qed

text \<open>
  The layout of an emitted payload.  It consists of \<open>N \<le> 2\<close> four-byte header blocks, the
  one-byte final header, the \<open>N\<close> redundancy payloads and the primary payload, in this
  order.  Each header block is the big-endian image of a 32-bit word whose top bit is set,
  whose next 7 bits hold the payload type, whose next 14 bits hold the timestamp of the
  current packet minus that of the redundant one, and whose low 10 bits hold the low 10
  bits of the block length.  The final header is the payload type with the top bit clear.
\<close>

lemma red_emitted_layout:
  assumes buf: "length redPayload = mtuSize" and hist: "length (pktBuff r) = maxRedCount"
    and emitted: "red_emitted (fst (RedReceiver_encodeRedForPrimary r pkt redPayload)) = Some payload"
  shows "payload = concat (map (\<lambda>p. PutUint32 (red_header pkt p)) (red_attached r pkt)) @ [opusPT]
                       @ concat (map Payload (red_attached r pkt)) @ Payload pkt
         \<and> length (red_attached r pkt) \<le> 2
         \<and> (\<forall>p \<in> set (red_attached r pkt).
               Some p \<in> set (pktBuff r)
               \<and> drop_bit 31 (red_header pkt p) = 1
               \<and> take_bit 7 (drop_bit 24 (red_header pkt p)) = ucast opusPT
               \<and> take_bit 14 (drop_bit 10 (red_header pkt p)) = Timestamp pkt - Timestamp p
               \<and> take_bit 10 (red_header pkt p) = take_bit 10 (of_nat (length (Payload p))))
         \<and> \<not> bit opusPT 7 \<and> take_bit 7 opusPT = opusPT"
proof -
  let ?blocks = "red_attached r pkt"
  have p: "payload = red_layout pkt ?blocks"
    using method_emitted [OF buf hist, of pkt] emitted by (simp split: if_splits)
  have sub: "set ?blocks \<subseteq> set (filter (red_eligible pkt) (history_packets r))"
    by (simp add: red_attached_def Let_def)
  have len: "length ?blocks \<le> 2"
  proof -
    have "length (filter (red_eligible pkt) (history_packets r)) \<le> length (history_packets r)"
      by simp
    moreover have "length (history_packets r) \<le> 2"
      using history_packets_length [of r] hist by (simp add: maxRedCount_def)
    ultimately have "length (filter (red_eligible pkt) (history_packets r)) \<le> 2"
      by (rule order_trans)
    thus ?thesis by (simp add: red_attached_def Let_def)
  qed
  have fields: "Some q \<in> set (pktBuff r)
               \<and> drop_bit 31 (red_header pkt q) = 1
               \<and> take_bit 7 (drop_bit 24 (red_header pkt q)) = ucast opusPT
               \<and> take_bit 14 (drop_bit 10 (red_header pkt q)) = Timestamp pkt - Timestamp q
               \<and> take_bit 10 (red_header pkt q) = take_bit 10 (of_nat (length (Payload q)))"
    if q: "q \<in> set ?blocks" for q
  proof -
    from q sub have h: "q \<in> set (history_packets r)" and el: "red_eligible pkt q" by auto
    from el have "Timestamp pkt - Timestamp q < 2 ^ 14" by (simp add: red_eligible_def)
    hence "(Timestamp pkt - Timestamp q) AND mask 14 = Timestamp pkt - Timestamp q"
      by (rule less_mask_eq)
    hence "take_bit 14 (Timestamp pkt - Timestamp q) = Timestamp pkt - Timestamp q"
      by (simp only: take_bit_eq_mask)
    thus ?thesis
      using history_packets_set [OF h]
      by (simp add: red_header_layout header_F header_PT header_TS header_LEN)
  qed
  have pt: "\<not> bit opusPT 7" using opusPT_bits [of 7] by auto
  have pt7: "take_bit 7 opusPT = opusPT" by (simp add: opusPT_def)
  have "payload = concat (map (\<lambda>p. PutUint32 (red_header pkt p)) ?blocks) @ [opusPT]
                       @ concat (map Payload ?blocks) @ Payload pkt"
    using p by (simp add: red_layout_def red_header_layout)
  thus ?thesis using len fields pt pt7 by blast
qed

lemma red_emitted_layout_example:
  "[239, 15, 0, 2, 239, 7, 128, 1, 111, 1, 2, 3, 4, 5] =
       PutUint32 (red_header red_example_next \<lparr>SequenceNumber = 100, Timestamp = 1000, Payload = [1, 2]\<rparr>)
       @ PutUint32 (red_header red_example_next \<lparr>SequenceNumber = 101, Timestamp = 1480, Payload = [3]\<rparr>)
       @ [opusPT] @ [1, 2] @ [3] @ [4, 5]
   \<and> drop_bit 31 (red_header red_example_next
         \<lparr>SequenceNumber = 100, Timestamp = 1000, Payload = [1, 2]\<rparr>) = 1
   \<and> take_bit 7 (drop_bit 24 (red_header red_example_next
         \<lparr>SequenceNumber = 100, Timestamp = 1000, Payload = [1, 2]\<rparr>)) = 111
   \<and> take_bit 14 (drop_bit 10 (red_header red_example_next
         \<lparr>SequenceNumber = 100, Timestamp = 1000, Payload = [1, 2]\<rparr>)) = 960
   \<and> take_bit 10 (red_header red_example_next
         \<lparr>SequenceNumber = 100, Timestamp = 1000, Payload = [1, 2]\<rparr>) = 2"
proof -
  have b: "length (replicate mtuSize (0 :: byte)) = mtuSize" by simp
  have h: "length (pktBuff red_example) = maxRedCount"
    by (simp add: red_example_def maxRedCount_def)
  have e: "red_emitted (fst (RedReceiver_encodeRedForPrimary red_example red_example_next (replicate mtuSize 0)))
      = Some [239, 15, 0, 2, 239, 7, 128, 1, 111, 1, 2, 3, 4, 5]"
    using method_emitted [OF b h, of red_example_next]
    by (simp add: red_example_def red_example_next_def mtuSize_def red_attached_def red_eligible_def
        history_packets_def red_history_def red_layout_def spec_header_block_def PutUint32_def opusPT_def)
  have a: "red_attached red_example red_example_next =
      [\<lparr>SequenceNumber = 100, Timestamp = 1000, Payload = [1, 2]\<rparr>,
       \<lparr>SequenceNumber = 101, Timestamp = 1480, Payload = [3]\<rparr>]"
    by (simp add: red_example_def red_example_next_def mtuSize_def red_attached_def red_eligible_def
        history_packets_def red_history_def)
  have v: "Payload red_example_next = [4, 5]" "Timestamp red_example_next = 1960"
    by (simp_all add: red_example_next_def)
  have o: "(ucast opusPT :: 32 word) = 111" by (simp add: opusPT_def)
  from red_emitted_layout [OF b h e] show ?thesis
    unfolding a v o by simp
qed

text \<open>For a block shorter than 1024 bytes the length field is the block length.\<close>

lemma red_header_length_exact:
  "length (Payload p) < 1024 \<Longrightarrow> unat (take_bit 10 (red_header primary p)) = length (Payload p)"
  by (simp add: red_header_layout header_LEN unsigned_take_bit_eq unat_of_nat take_bit_nat_eq_self)

text \<open>
  C6.  The claim gives each header block a 10-bit field holding the block length.  The
  code stores \<^verbatim>\<open>uint32(len(p.Payload)) & 0x3FF\<close> there and, unlike for the timestamp
  offset, which keeps a packet out of the redundancy once it no longer fits its 14 bits,
  nothing keeps out a block of 1024 bytes or more.  With packet 101 of 1024 bytes in the
  history, packet 102 is emitted with that block attached and a header block whose length
  field is 0: the payload is \<open>EF 07 80 00\<close>, the final header \<open>6F\<close>, the 1024 bytes
  of the block and the primary payload.
\<close>

theorem red_block_length_truncated:
  "red_emitted (fst (RedReceiver_encodeRedForPrimary red_example_long red_example_next (replicate mtuSize 0)))
     = Some ([239, 7, 128, 0, 111] @ replicate 1024 9 @ [4, 5])
   \<and> red_attached red_example_long red_example_next =
       [\<lparr>SequenceNumber = 101, Timestamp = 1480, Payload = replicate 1024 9\<rparr>]
   \<and> length (Payload \<lparr>SequenceNumber = 101, Timestamp = 1480, Payload = replicate 1024 (9 :: byte)\<rparr>) = 1024
   \<and> take_bit 10 (red_header red_example_next
         \<lparr>SequenceNumber = 101, Timestamp = 1480, Payload = replicate 1024 9\<rparr>) = 0"
proof -
  have b: "length (replicate mtuSize (0 :: byte)) = mtuSize" by simp
  have h: "length (pktBuff red_example_long) = maxRedCount"
    by (simp add: red_example_long_def maxRedCount_def)
  have a: "red_attached red_example_long red_example_next =
       [\<lparr>SequenceNumber = 101, Timestamp = 1480, Payload = replicate 1024 9\<rparr>]"
    by (simp add: red_example_long_def red_example_next_def mtuSize_def red_attached_def red_eligible_def
        history_packets_def red_history_def)
  have e: "red_emitted (fst (RedReceiver_encodeRedForPrimary red_example_long red_example_next (replicate mtuSize 0)))
     = Some ([239, 7, 128, 0, 111] @ replicate 1024 9 @ [4, 5])"
    using method_emitted [OF b h, of red_example_next] unfolding a
    by (simp add: red_example_next_def mtuSize_def red_layout_def spec_header_block_def
        PutUint32_def opusPT_def)
  have l: "take_bit 10 (red_header red_example_next
         \<lparr>SequenceNumber = 101, Timestamp = 1480, Payload = replicate 1024 9\<rparr>) = 0"
    by (simp add: red_header_layout header_LEN)
  show ?thesis using e a l by simp
qed

section \<open>Cumulative bitrates of SVC tracks\<close>

lemma svc_rows_3x4:
  "svc_rows 3 [ [a0, a1, a2, a3], [b0, b1, b2, b3], [c0, c1, c2, c3]] =
     [ [a0, a1, a2, a3],
      [cum1 b0 a0, cum1 b1 a1, cum1 b2 a2, cum1 b3 a3],
      [cum2 c0 b0 a0, cum2 c1 b1 a1, cum2 c2 b2 a2, cum2 c3 b3 a3]]"
  by (simp add: eval_nat_numeral cum1_def cum2_def)

lemma cum1_bounded:
  assumes "0 \<le> a" "a < 2 ^ 61" "0 \<le> b" "b < 2 ^ 61"
  shows "cum1 b a = (if b \<noteq> 0 then b + a else 0)"
  using assms by (simp add: cum1_def int64_wrap_id)

lemma cum2_bounded:
  assumes "0 \<le> a" "a < 2 ^ 61" "0 \<le> b" "b < 2 ^ 61" "0 \<le> c" "c < 2 ^ 61"
  shows "cum2 c b a = (if c \<noteq> 0 then c + b + a else 0)"
  using assms by (simp add: cum2_def int64_wrap_id)

lemma cum1_ge:
  assumes "0 \<le> a" "a < 2 ^ 61" "0 \<le> b" "b < 2 ^ 61" "cum1 b a \<noteq> 0"
  shows "a \<le> cum1 b a"
  using assms by (simp add: cum1_bounded split: if_splits)

lemma cum2_ge:
  assumes "0 \<le> a" "a < 2 ^ 61" "0 \<le> b" "b < 2 ^ 61" "0 \<le> c" "c < 2 ^ 61" "cum2 c b a \<noteq> 0"
  shows "cum1 b a \<le> cum2 c b a"
  using assms by (simp add: cum1_bounded cum2_bounded split: if_splits)

lemma list4: "length xs = 4 \<Longrightarrow> \<exists>a b c d. xs = [a, b, c, d]"
  by (auto simp add: length_Suc_conv eval_nat_numeral)

lemma list3: "length xs = 3 \<Longrightarrow> \<exists>a b c. xs = [a, b, c]"
  by (auto simp add: length_Suc_conv eval_nat_numeral)

lemma tracker_row_ok:
  assumes "tracker_ok t"
  shows "length (tracker_row s i t) = 4 \<and> list_all (\<lambda>x. 0 \<le> x \<and> x < 2 ^ 61) (tracker_row s i t)"
  using assms
  by (cases t) (simp_all add: tracker_ok_def tracker_row_def DefaultMaxLayerTemporal_def list_all_length)

lemma fill_step:
  assumes ok: "tracker_ok t" and i: "i < length br" and z: "br ! i = replicate 4 0"
  shows "fill_rows s i (t # rest) br = fill_rows s (Suc i) rest (br[i := tracker_row s i t])"
proof (cases t)
  case None
  have "tracker_row s i None = replicate 4 0"
    by (simp add: tracker_row_def DefaultMaxLayerTemporal_def)
  hence "br[i := tracker_row s i None] = br" using z by (metis list_update_id)
  thus ?thesis using None by simp
next
  case (Some tr)
  have "length (tracker_row s i (Some tr)) = 4" using tracker_row_ok ok Some by blast
  hence c: "copy_row (br ! i) (tracker_row s i (Some tr)) = Some (tracker_row s i (Some tr))"
    using z by (simp add: copy_row_def)
  have r: "(if hasSpatialLayerLocked s (int i) then BitrateTemporalCumulative tr
            else replicate (DefaultMaxLayerTemporal + 1) 0) = tracker_row s i (Some tr)"
    by (simp add: tracker_row_def)
  show ?thesis using Some by (simp only: fill_rows.simps r Let_def c option.case)
qed

lemma fill_rows_3:
  assumes "tracker_ok t0" "tracker_ok t1" "tracker_ok t2"
  shows "fill_rows s 0 [t0, t1, t2] zero_Bitrates =
           Some [tracker_row s 0 t0, tracker_row s 1 t1, tracker_row s 2 t2]"
proof -
  let ?z = "replicate 4 (0 :: int)"
  have z: "zero_Bitrates = [?z, ?z, ?z]"
    by (simp add: zero_Bitrates_def DefaultMaxLayerSpatial_def DefaultMaxLayerTemporal_def eval_nat_numeral)
  have "fill_rows s 0 [t0, t1, t2] [?z, ?z, ?z] = fill_rows s 1 [t1, t2] [tracker_row s 0 t0, ?z, ?z]"
    using fill_step [OF assms(1), of 0 "[?z, ?z, ?z]" s "[t1, t2]"] by simp
  also have "\<dots> = fill_rows s 2 [t2] [tracker_row s 0 t0, tracker_row s 1 t1, ?z]"
    using fill_step [OF assms(2), of 1 "[tracker_row s 0 t0, ?z, ?z]" s "[t2]"]
    by (simp add: eval_nat_numeral)
  also have "\<dots> = fill_rows s 3 [] [tracker_row s 0 t0, tracker_row s 1 t1, tracker_row s 2 t2]"
    using fill_step [OF assms(3), of 2 "[tracker_row s 0 t0, tracker_row s 1 t1, ?z]" s "[]"]
    by (simp add: eval_nat_numeral)
  finally show ?thesis by (simp add: z)
qed

lemma tracker_row_isSVC: "tracker_row (s\<lparr>isSVC := v\<rparr>) i t = tracker_row s i t"
  by (simp add: tracker_row_def hasSpatialLayerLocked_def split: option.splits)

text \<open>
  C3, as amended.  For an SVC track whose trackers are well-formed, \<open>GetLayeredBitrate\<close>
  returns the available layers and a matrix of \<open>DefaultMaxLayerSpatial + 1\<close> rows whose
  entries are these.  Let the contribution of layer \<open>s\<close> at temporal index \<open>t\<close> be
  the entry of the matrix before the summation (what the same call returns for a track
  that is not SVC): zero for a nil tracker or a layer that is not available, the
  tracker's cumulative temporal bitrate otherwise.  Then \<open>bitrates[s][t]\<close> is zero when
  the contribution of layer \<open>s\<close> at \<open>t\<close> is zero, whatever the layers below
  contribute, and otherwise it is the sum of the contributions of layers \<open>0..s\<close> at
  \<open>t\<close>.  Hence for every \<open>s \<ge> 1\<close> and \<open>t\<close>, a non-zero \<open>bitrates[s][t]\<close> is at
  least \<open>bitrates[s-1][t]\<close>.
\<close>

theorem svc_bitrates_cumulative:
  assumes svc: "isSVC s" and len: "length (trackers s) = DefaultMaxLayerSpatial + 1"
    and ok: "list_all tracker_ok (trackers s)"
  shows "\<exists>br. GetLayeredBitrate s = Some (availableLayers s, br)
           \<and> GetLayeredBitrate (s\<lparr>isSVC := False\<rparr>) = Some (availableLayers s, layer_rows s)
           \<and> length br = DefaultMaxLayerSpatial + 1
           \<and> (\<forall>sp t. sp \<le> DefaultMaxLayerSpatial \<and> t \<le> DefaultMaxLayerTemporal \<longrightarrow>
                  br ! sp ! t = (if layer_rows s ! sp ! t = 0 then 0
                                 else (\<Sum>k\<in>{..sp}. layer_rows s ! k ! t)))
           \<and> (\<forall>sp t. 1 \<le> sp \<and> sp \<le> DefaultMaxLayerSpatial \<and> t \<le> DefaultMaxLayerTemporal
                  \<and> br ! sp ! t \<noteq> 0 \<longrightarrow> br ! (sp - 1) ! t \<le> br ! sp ! t)"
proof -
  from len obtain t0 t1 t2 where ts: "trackers s = [t0, t1, t2]"
    using list3 [of "trackers s"] by (auto simp add: DefaultMaxLayerSpatial_def)
  have ok0: "tracker_ok t0" and ok1: "tracker_ok t1" and ok2: "tracker_ok t2"
    using ok ts by simp_all
  obtain a0 a1 a2 a3 where r0: "tracker_row s 0 t0 = [a0, a1, a2, a3]"
    using tracker_row_ok [OF ok0, of s 0] list4 by blast
  obtain b0 b1 b2 b3 where r1: "tracker_row s 1 t1 = [b0, b1, b2, b3]"
    using tracker_row_ok [OF ok1, of s 1] list4 by blast
  obtain c0 c1 c2 c3 where r2: "tracker_row s 2 t2 = [c0, c1, c2, c3]"
    using tracker_row_ok [OF ok2, of s 2] list4 by blast
  have ba: "0 \<le> a0 \<and> a0 < 2 ^ 61 \<and> 0 \<le> a1 \<and> a1 < 2 ^ 61 \<and> 0 \<le> a2 \<and> a2 < 2 ^ 61 \<and> 0 \<le> a3 \<and> a3 < 2 ^ 61"
    using tracker_row_ok [OF ok0, of s 0] r0 by simp
  have bb: "0 \<le> b0 \<and> b0 < 2 ^ 61 \<and> 0 \<le> b1 \<and> b1 < 2 ^ 61 \<and> 0 \<le> b2 \<and> b2 < 2 ^ 61 \<and> 0 \<le> b3 \<and> b3 < 2 ^ 61"
    using tracker_row_ok [OF ok1, of s 1] r1 by simp
  have bc: "0 \<le> c0 \<and> c0 < 2 ^ 61 \<and> 0 \<le> c1 \<and> c1 < 2 ^ 61 \<and> 0 \<le> c2 \<and> c2 < 2 ^ 61 \<and> 0 \<le> c3 \<and> c3 < 2 ^ 61"
    using tracker_row_ok [OF ok2, of s 2] r2 by simp
  let ?br = "[ [a0, a1, a2, a3],
      [cum1 b0 a0, cum1 b1 a1, cum1 b2 a2, cum1 b3 a3],
      [cum2 c0 b0 a0, cum2 c1 b1 a1, cum2 c2 b2 a2, cum2 c3 b3 a3]]"
  let ?raw = "[ [a0, a1, a2, a3], [b0, b1, b2, b3], [c0, c1, c2, c3]]"
  have f: "fill_rows s 0 (trackers s) zero_Bitrates = Some ?raw"
    using fill_rows_3 [OF ok0 ok1 ok2, of s] by (simp only: ts r0 r1 r2)
  have l: "length ?raw = 3" by simp
  have g: "GetLayeredBitrate s = Some (availableLayers s, ?br)"
    by (simp only: GetLayeredBitrate_def getLayeredBitrateLocked_def f option.case svc if_True l
          svc_rows_3x4)
  have "layer_rows s = [tracker_row s 0 t0, tracker_row s 1 t1, tracker_row s 2 t2]"
    by (simp add: layer_rows_def ts eval_nat_numeral)
  hence lr: "layer_rows s = ?raw" by (simp only: r0 r1 r2)
  let ?s' = "s\<lparr>isSVC := False\<rparr>"
  have "fill_rows ?s' 0 [t0, t1, t2] zero_Bitrates =
          Some [tracker_row ?s' 0 t0, tracker_row ?s' 1 t1, tracker_row ?s' 2 t2]"
    using ok0 ok1 ok2 by (rule fill_rows_3)
  hence "fill_rows ?s' 0 (trackers ?s') zero_Bitrates = Some (layer_rows s)"
    by (simp only: tracker_row_isSVC r0 r1 r2 lr) (simp add: ts)
  hence n: "GetLayeredBitrate ?s' = Some (availableLayers s, layer_rows s)"
    by (simp add: GetLayeredBitrate_def getLayeredBitrateLocked_def)
  have e: "?br ! sp ! t = (if ?raw ! sp ! t = 0 then 0 else (\<Sum>k\<in>{..sp}. ?raw ! k ! t))"
    if "sp \<le> 2" "t \<le> 3" for sp t
  proof -
    have "sp = 0 \<or> sp = 1 \<or> sp = 2" using that by linarith
    moreover have "t = 0 \<or> t = 1 \<or> t = 2 \<or> t = 3" using that by linarith
    ultimately show ?thesis
      using ba bb bc
      by (elim disjE) (simp_all add: cum1_bounded cum2_bounded eval_nat_numeral)
  qed
  have m: "?br ! (sp - 1) ! t \<le> ?br ! sp ! t"
    if "1 \<le> sp" "sp \<le> 2" "t \<le> 3" "?br ! sp ! t \<noteq> 0" for sp t
  proof -
    have "sp = 1 \<or> sp = 2" using that by linarith
    moreover have "t = 0 \<or> t = 1 \<or> t = 2 \<or> t = 3" using that by linarith
    ultimately show ?thesis
      using that(4) ba bb bc
      by (elim disjE) (simp_all add: cum1_ge cum2_ge)
  qed
  show ?thesis
  proof (intro exI [of _ ?br] conjI allI impI)
    show "GetLayeredBitrate s = Some (availableLayers s, ?br)" by (rule g)
  next
    show "GetLayeredBitrate ?s' = Some (availableLayers s, layer_rows s)" by (rule n)
  next
    show "length ?br = DefaultMaxLayerSpatial + 1" by (simp add: DefaultMaxLayerSpatial_def)
  next
    fix sp t
    assume h: "sp \<le> DefaultMaxLayerSpatial \<and> t \<le> DefaultMaxLayerTemporal"
    hence h2: "sp \<le> DefaultMaxLayerSpatial" and h3: "t \<le> DefaultMaxLayerTemporal" by blast+
    from h2 have h2': "sp \<le> 2" by (simp only: DefaultMaxLayerSpatial_def)
    from h3 have h3': "t \<le> 3" by (simp only: DefaultMaxLayerTemporal_def)
    from h2' h3' have "?br ! sp ! t = (if ?raw ! sp ! t = 0 then 0 else (\<Sum>k\<in>{..sp}. ?raw ! k ! t))"
      by (rule e)
    thus "?br ! sp ! t = (if layer_rows s ! sp ! t = 0 then 0 else (\<Sum>k\<in>{..sp}. layer_rows s ! k ! t))"
      by (simp only: lr)
  next
    fix sp t
    assume h: "1 \<le> sp \<and> sp \<le> DefaultMaxLayerSpatial \<and> t \<le> DefaultMaxLayerTemporal \<and> ?br ! sp ! t \<noteq> 0"
    hence h1: "1 \<le> sp" and h2: "sp \<le> DefaultMaxLayerSpatial" and h3: "t \<le> DefaultMaxLayerTemporal"
      and h4: "?br ! sp ! t \<noteq> 0"
      by blast+
    from h2 have h2': "sp \<le> 2" by (simp only: DefaultMaxLayerSpatial_def)
    from h3 have h3': "t \<le> 3" by (simp only: DefaultMaxLayerTemporal_def)
    from h1 h2' h3' h4 show "?br ! (sp - 1) ! t \<le> ?br ! sp ! t" by (rule m)
  qed
qed

theorem svc_bitrates_cumulative_witness:
  "\<exists>br. GetLayeredBitrate svc_two_layers = Some ([0, 1], br)
        \<and> length br = 3
        \<and> br ! 1 ! 0 = 200000 \<and> br ! 0 ! 0 \<le> br ! 1 ! 0
        \<and> br ! 1 ! 3 = 400000 \<and> br ! 0 ! 3 \<le> br ! 1 ! 3
        \<and> br ! 2 ! 0 = 0"
proof -
  have a: "isSVC svc_two_layers" by (simp add: svc_two_layers_def svc_one_layer_def)
  have b: "length (trackers svc_two_layers) = DefaultMaxLayerSpatial + 1"
    by (simp add: svc_two_layers_def svc_one_layer_def DefaultMaxLayerSpatial_def)
  have c: "list_all tracker_ok (trackers svc_two_layers)"
    by (simp add: svc_two_layers_def svc_one_layer_def tracker_ok_def DefaultMaxLayerTemporal_def)
  from svc_bitrates_cumulative [OF a b c] obtain br where
    g: "GetLayeredBitrate svc_two_layers = Some (availableLayers svc_two_layers, br)"
    and l: "length br = DefaultMaxLayerSpatial + 1"
    and z: "\<And>sp t. sp \<le> DefaultMaxLayerSpatial \<and> t \<le> DefaultMaxLayerTemporal \<Longrightarrow>
                  br ! sp ! t = (if layer_rows svc_two_layers ! sp ! t = 0 then 0
                                 else (\<Sum>k\<in>{..sp}. layer_rows svc_two_layers ! k ! t))"
    and m: "\<And>sp t. 1 \<le> sp \<and> sp \<le> DefaultMaxLayerSpatial \<and> t \<le> DefaultMaxLayerTemporal
                  \<and> br ! sp ! t \<noteq> 0 \<Longrightarrow> br ! (sp - 1) ! t \<le> br ! sp ! t"
    by blast
  have rows: "layer_rows svc_two_layers =
      [ [100000, 150000, 180000, 200000], [100000, 150000, 180000, 200000], [0, 0, 0, 0]]"
    by (simp add: layer_rows_def svc_two_layers_def svc_one_layer_def tracker_row_def
          hasSpatialLayerLocked_def DefaultMaxLayerTemporal_def eval_nat_numeral)
  have e0: "br ! 1 ! 0 = 200000"
    using z [of 1 0] by (simp add: rows DefaultMaxLayerSpatial_def)
  have e3: "br ! 1 ! 3 = 400000"
    using z [of 1 3] by (simp add: rows DefaultMaxLayerSpatial_def DefaultMaxLayerTemporal_def)
  have e2: "br ! 2 ! 0 = 0"
    using z [of 2 0] by (simp add: rows DefaultMaxLayerSpatial_def)
  have "br ! (1 - 1) ! 0 \<le> br ! 1 ! 0"
    using e0 by (intro m) (simp add: DefaultMaxLayerSpatial_def)
  moreover have "br ! (1 - 1) ! 3 \<le> br ! 1 ! 3"
    using e3 by (intro m) (simp add: DefaultMaxLayerSpatial_def DefaultMaxLayerTemporal_def)
  moreover have "availableLayers svc_two_layers = [0, 1]"
    by (simp add: svc_two_layers_def)
  ultimately show ?thesis using g l e0 e3 e2 by (auto simp add: DefaultMaxLayerSpatial_def)
qed

text \<open>
  The claim as stated fails: with layer 0 alone available, row 1 of the matrix is zero and
  lies below row 0.
\<close>

theorem svc_bitrates_cumulative_counterexample:
  "isSVC svc_one_layer
   \<and> GetLayeredBitrate svc_one_layer =
       Some ([0], [ [100000, 150000, 180000, 200000], [0, 0, 0, 0], [0, 0, 0, 0]])
   \<and> [ [100000, 150000, 180000, 200000], [0, 0, 0, 0], [0, 0, 0, 0 :: int]] ! 1 ! 0
       < [ [100000, 150000, 180000, 200000], [0, 0, 0, 0], [0, 0, 0, 0]] ! 0 ! 0"
  by code_simp

text \<open>The specification's scenario 4, scaled: the second row is the sum of both layers.\<close>

lemma svc_two_layers_value:
  "GetLayeredBitrate svc_two_layers =
       Some ([0, 1], [ [100000, 150000, 180000, 200000], [200000, 300000, 360000, 400000], [0, 0, 0, 0]])"
  by code_simp

section \<open>Properties of the sink's writer\<close>

text \<open>
  C8, as amended.  For an iteration of the writer's loop that reaches the send: after a
  failed send before the deadline the loop goes on with the queue kept, the seq counter
  unchanged and an interval that never exceeds \<open>MaxRetryInterval\<close> and is the smaller of
  the doubled interval and \<open>MaxRetryInterval\<close> (the doubling being exact below
  \<open>2^62\<close> ns); after a failed send past the deadline the loop ends with the queue empty
  and the seq counter advanced by the number of messages that were queued, and then
  \<open>Stream.Close(nil)\<close> is called if the sink is draining and
  \<open>Stream.Close(ErrSignalWriteFailed)\<close> if the sink was created with \<open>CloseOnFailure\<close>;
  after a successful send of the frame holding the seq counter and the whole queue, the
  seq counter is advanced by the number of messages of that frame and exactly those
  messages are removed from the queue.
\<close>

theorem sink_write_step:
  assumes open_stream: "\<not> streamIsClosed e" and work: "s_draining s \<or> s_queue s \<noteq> []"
  shows
    "(sendErr e \<and> \<not> afterDeadline e \<longrightarrow>
        (\<exists>s' msg. write_iter p s interval e = LoopNext s' (next_interval p interval) True msg
            \<and> s_seq s' = s_seq s \<and> s_queue s' = s_queue s @ enqueued e)
        \<and> next_interval p interval \<le> MaxRetryInterval (Config p)
        \<and> (- (2 ^ 62) \<le> interval \<and> interval < 2 ^ 62 \<longrightarrow>
             next_interval p interval = min (2 * interval) (MaxRetryInterval (Config p))))
   \<and> (sendErr e \<and> afterDeadline e \<longrightarrow>
        (\<exists>s' msg. write_iter p s interval e = LoopExit s' True msg
            \<and> s_queue s' = []
            \<and> s_seq s' = s_seq s + of_nat (length (s_queue s @ enqueued e))
            \<and> snd (write_finish p s' True) =
                 (if s_draining s' then [None] else [])
                   @ (if CloseOnFailure p then [Some ErrSignalWriteFailed] else [])))
   \<and> (\<not> sendErr e \<longrightarrow>
        (\<exists>s' msg. (write_iter p s interval e = LoopExit s' False msg
                     \<or> write_iter p s interval e = LoopNext s' (MinRetryInterval (Config p)) False msg)
            \<and> GetSeq msg = s_seq s \<and> GetMessages msg = s_queue s
            \<and> s_seq s' = s_seq s + of_nat (length (s_queue s))
            \<and> s_queue s' = enqueued e))"
proof -
  have ni: "next_interval p interval \<le> MaxRetryInterval (Config p)"
    by (simp add: next_interval_def Let_def)
  have nd: "next_interval p interval = min (2 * interval) (MaxRetryInterval (Config p))"
    if "- (2 ^ 62) \<le> interval" "interval < 2 ^ 62"
  proof -
    have "int64_wrap (interval * 2) = interval * 2" using that by (intro int64_wrap_id) simp_all
    thus ?thesis by (simp add: next_interval_def Let_def min_def)
  qed
  show ?thesis
    using assms ni nd
    by (auto simp add: write_iter_def write_finish_def Let_def)
qed

theorem sink_write_step_witness:
  "next_interval client_sink 500000000 = 1000000000
   \<and> next_interval client_sink 2500000000 = 4000000000
   \<and> (\<exists>s' msg. write_iter client_sink sink_three 500000000 env_fail = LoopNext s' 1000000000 True msg
          \<and> s_seq s' = 0 \<and> s_queue s' = [1, 2, 3])
   \<and> (\<exists>s' msg. write_iter client_sink sink_three 500000000 env_timeout = LoopExit s' True msg
          \<and> s_queue s' = [] \<and> s_seq s' = 3
          \<and> snd (write_finish client_sink s' True) = [Some ErrSignalWriteFailed])
   \<and> (\<exists>s' msg. (write_iter client_sink sink_three 500000000 env_ok = LoopExit s' False msg
                   \<or> write_iter client_sink sink_three 500000000 env_ok = LoopNext s' 500000000 False msg)
          \<and> GetSeq msg = 0 \<and> GetMessages msg = [1, 2, 3] \<and> s_seq s' = 3 \<and> s_queue s' = [])"
proof -
  have o: "\<not> streamIsClosed env_fail" "\<not> streamIsClosed env_timeout" "\<not> streamIsClosed env_ok"
    by (simp_all add: env_fail_def env_timeout_def env_ok_def)
  have w: "s_draining sink_three \<or> s_queue sink_three \<noteq> []"
    by (simp add: sink_three_def)
  from sink_write_step [OF o(1) w, of client_sink 500000000]
  have n1: "next_interval client_sink 500000000 = 1000000000"
    by (simp add: env_fail_def client_sink_def relay_config_def)
  from sink_write_step [OF o(1) w, of client_sink 2500000000]
  have n2: "next_interval client_sink 2500000000 = 4000000000"
    by (simp add: env_fail_def client_sink_def relay_config_def)
  from sink_write_step [OF o(1) w, of client_sink 500000000]
  have a: "\<exists>s' msg. write_iter client_sink sink_three 500000000 env_fail = LoopNext s' 1000000000 True msg
          \<and> s_seq s' = 0 \<and> s_queue s' = [1, 2, 3]"
    unfolding n1 by (simp add: env_fail_def sink_three_def)
  from sink_write_step [OF o(2) w, of client_sink 500000000]
  have b: "\<exists>s' msg. write_iter client_sink sink_three 500000000 env_timeout = LoopExit s' True msg
          \<and> s_queue s' = [] \<and> s_seq s' = 3
          \<and> snd (write_finish client_sink s' True) = [Some ErrSignalWriteFailed]"
    by (simp add: env_timeout_def sink_three_def client_sink_def write_iter_def write_finish_def Let_def)
  from sink_write_step [OF o(3) w, of client_sink 500000000]
  have c: "\<exists>s' msg. (write_iter client_sink sink_three 500000000 env_ok = LoopExit s' False msg
                   \<or> write_iter client_sink sink_three 500000000 env_ok = LoopNext s' 500000000 False msg)
          \<and> GetSeq msg = 0 \<and> GetMessages msg = [1, 2, 3] \<and> s_seq s' = 3 \<and> s_queue s' = []"
    by (simp add: env_ok_def sink_three_def client_sink_def relay_config_def)
  from n1 n2 a b c show ?thesis by blast
qed

text \<open>
  The claim as stated fails for a sink created without \<open>CloseOnFailure\<close>: the writer
  gives up past the deadline and discards the queue, but \<open>Stream.Close\<close> is never called.
\<close>

theorem sink_write_step_counterexample:
  "sink_write plain_sink [env_fail, env_timeout] sink_three =
     Some (\<lparr>s_seq = 3, s_queue = [], s_writing = False, s_draining = False\<rparr>,
           [(\<lparr>GetSeq = 0, GetClose = False, GetMessages = [1, 2, 3]\<rparr>, 500000000),
            (\<lparr>GetSeq = 0, GetClose = False, GetMessages = [1, 2, 3]\<rparr>, 1000000000)],
           [])"
  by code_simp

text \<open>
  The specification's scenario 6: the first send fails, the second carries all three
  messages with seq 0; and a writer that gives up after the interval has reached its cap.
\<close>

lemma sink_write_retry_scenario:
  "sink_write client_sink [env_fail, env_ok, env_ok] sink_three =
     Some (\<lparr>s_seq = 3, s_queue = [], s_writing = False, s_draining = False\<rparr>,
           [(\<lparr>GetSeq = 0, GetClose = False, GetMessages = [1, 2, 3]\<rparr>, 500000000),
            (\<lparr>GetSeq = 0, GetClose = False, GetMessages = [1, 2, 3]\<rparr>, 1000000000)],
           [])"
  by code_simp

lemma sink_write_give_up_scenario:
  "sink_write client_sink [env_fail, env_fail, env_fail, env_fail, env_timeout] sink_three =
     Some (\<lparr>s_seq = 3, s_queue = [], s_writing = False, s_draining = False\<rparr>,
           [(\<lparr>GetSeq = 0, GetClose = False, GetMessages = [1, 2, 3]\<rparr>, 500000000),
            (\<lparr>GetSeq = 0, GetClose = False, GetMessages = [1, 2, 3]\<rparr>, 1000000000),
            (\<lparr>GetSeq = 0, GetClose = False, GetMessages = [1, 2, 3]\<rparr>, 2000000000),
            (\<lparr>GetSeq = 0, GetClose = False, GetMessages = [1, 2, 3]\<rparr>, 4000000000),
            (\<lparr>GetSeq = 0, GetClose = False, GetMessages = [1, 2, 3]\<rparr>, 4000000000)],
           [Some ErrSignalWriteFailed])"
  by code_simp

end
